theory Spec2Isabelle
  imports Complex_Main "HOL-Library.Multiset" "HOL-Library.Log_Nat"
begin

section \<open>JavaScript values used by the analyzer\<close>

text \<open>
  The analyzer (\<^verbatim>\<open>analyzer.js\<close>, the variant with the safety checks) works on
  JavaScript numbers. A finite number is modelled as a rational. The benchmark
  percentile, whose value at a tie depends on the last binary digit, is computed with
  every operation rounded to binary64 (\<open>toDouble\<close> below); elsewhere the operations
  are exact and the rounding error of binary floating point is not part of the model. A
  division whose denominator can be zero returns a \<open>jsnum\<close>, which also has the three
  non-finite results of such a division. Negative zero never reaches a denominator in
  this program (denominators are array lengths, sums, or values that went through
  \<^verbatim>\<open>x || d\<close>).
\<close>

datatype jsnum = Fin rat | PosInfinity | NegInfinity | NaN

definition js_div :: "rat \<Rightarrow> rat \<Rightarrow> jsnum" where
  "js_div a b =
     (if b \<noteq> 0 then Fin (a / b)
      else if a = 0 then NaN
      else if 0 < a then PosInfinity else NegInfinity)"

fun js_mul :: "jsnum \<Rightarrow> rat \<Rightarrow> jsnum" where
  "js_mul (Fin a) k = Fin (a * k)"
| "js_mul PosInfinity k = (if k = 0 then NaN else if 0 < k then PosInfinity else NegInfinity)"
| "js_mul NegInfinity k = (if k = 0 then NaN else if 0 < k then NegInfinity else PosInfinity)"
| "js_mul NaN k = NaN"

text \<open>\<^verbatim>\<open>Math.round\<close>: the nearest integer, a tie going towards plus infinity.\<close>

definition Math_round :: "rat \<Rightarrow> rat" where
  "Math_round x = of_int \<lfloor>x + 1 / 2\<rfloor>"

fun js_round :: "jsnum \<Rightarrow> jsnum" where
  "js_round (Fin a) = Fin (Math_round a)"
| "js_round PosInfinity = PosInfinity"
| "js_round NegInfinity = NegInfinity"
| "js_round NaN = NaN"

text \<open>\<^verbatim>\<open>x < y\<close> and \<open>x > y\<close> for a finite \<open>x\<close>; a comparison with NaN is false.\<close>

fun js_lt :: "rat \<Rightarrow> jsnum \<Rightarrow> bool" where
  "js_lt x (Fin y) = (x < y)"
| "js_lt x PosInfinity = True"
| "js_lt x NegInfinity = False"
| "js_lt x NaN = False"

fun js_gt :: "rat \<Rightarrow> jsnum \<Rightarrow> bool" where
  "js_gt x (Fin y) = (y < x)"
| "js_gt x PosInfinity = False"
| "js_gt x NegInfinity = True"
| "js_gt x NaN = False"

text \<open>
  Exceptions. \<open>TypeError\<close> is what the runtime raises when a property of
  \<^verbatim>\<open>undefined\<close> or \<^verbatim>\<open>null\<close> is read; \<open>Error msg\<close> is an explicit
  \<^verbatim>\<open>throw new Error(msg)\<close>, as the entry point \<^verbatim>\<open>main.js\<close> does for its inputs.
\<close>

datatype js_error = TypeError | Error string

text \<open>
  A template literal is kept as the list of its pieces: the literal text and the
  interpolated values, with the conversion applied to each (\<^verbatim>\<open>toLocaleString()\<close>,
  \<^verbatim>\<open>toFixed(1)\<close>), instead of the rendered string.
\<close>

datatype part = Lit string | Str string | NumStr jsnum | ToLocale jsnum | ToFixed nat jsnum

text \<open>\<^verbatim>\<open>String.prototype.toLowerCase\<close> on ASCII text.\<close>

definition lowerChar :: "char \<Rightarrow> char" where
  "lowerChar c =
     (case map_of (zip ''ABCDEFGHIJKLMNOPQRSTUVWXYZ'' ''abcdefghijklmnopqrstuvwxyz'') c of
        None \<Rightarrow> c
      | Some l \<Rightarrow> l)"

definition toLowerCase :: "string \<Rightarrow> string" where
  "toLowerCase s = map lowerChar s"

text \<open>\<^verbatim>\<open>Array.prototype.findIndex\<close>: the first index whose element passes, or \<open>-1\<close>.\<close>

fun findIndexFrom :: "nat \<Rightarrow> ('a \<Rightarrow> bool) \<Rightarrow> 'a list \<Rightarrow> int" where
  "findIndexFrom i P [] = - 1"
| "findIndexFrom i P (x # xs) = (if P x then int i else findIndexFrom (Suc i) P xs)"

definition findIndex :: "('a \<Rightarrow> bool) \<Rightarrow> 'a list \<Rightarrow> int" where
  "findIndex P xs = findIndexFrom 0 P xs"

text \<open>
  \<^verbatim>\<open>[...new Set(xs)]\<close>: the distinct elements in the order of their first occurrence.
\<close>

definition setToArray :: "'a list \<Rightarrow> 'a list" where
  "setToArray xs = foldl (\<lambda>acc x. if x \<in> set acc then acc else acc @ [x]) [] xs"

text \<open>\<^verbatim>\<open>if (c) { xs.push(r); }\<close>, returning the array.\<close>

definition pushIf :: "bool \<Rightarrow> 'a \<Rightarrow> 'a list \<Rightarrow> 'a list" where
  "pushIf c r xs = (if c then xs @ [r] else xs)"

text \<open>
  \<^verbatim>\<open>xs.sort((a, b) => key(b) - key(a))\<close> on finite keys: \<^verbatim>\<open>Array.prototype.sort\<close>
  is stable, so the result is the stable sort by descending key, which is what
  \<^const>\<open>sort_key\<close> on the negated key computes.
\<close>

definition sortDesc :: "('a \<Rightarrow> rat) \<Rightarrow> 'a list \<Rightarrow> 'a list" where
  "sortDesc key xs = sort_key (\<lambda>x. - key x) xs"

section \<open>Data model\<close>

text \<open>
  A creator profile as the analyzer reads it. Every field but the username may be absent
  (\<open>None\<close>); a present number is finite.
\<close>

record creator =
  username :: string
  nickname :: "string option"
  verified :: "bool option"
  followers :: "rat option"
  likes :: "rat option"
  videos :: "rat option"
  engagementRate :: "rat option"
  accountAgeDays :: "rat option"
  bioLink :: "string option"
  commerceUser :: "bool option"
  ttSeller :: "bool option"

text \<open>\<^verbatim>\<open>x || d\<close> on an optional number: the default replaces an absent value and 0.\<close>

definition orElse :: "rat option \<Rightarrow> rat \<Rightarrow> rat" where
  "orElse v d = (case v of None \<Rightarrow> d | Some x \<Rightarrow> if x = 0 then d else x)"

text \<open>Truthiness of an optional boolean and of an optional string.\<close>

definition truthyB :: "bool option \<Rightarrow> bool" where
  "truthyB v = (v = Some True)"

definition truthyS :: "string option \<Rightarrow> bool" where
  "truthyS v = (case v of None \<Rightarrow> False | Some s \<Rightarrow> s \<noteq> [])"

record metrics =
  m_followers :: rat
  m_likes :: rat
  m_videos :: rat
  m_engagementRate :: rat
  m_accountAgeDays :: rat

record marketShare =
  ms_followers :: rat
  ms_likes :: rat

record growth =
  followersPerDay :: rat
  followersPerMonth :: rat
  videosPerMonth :: rat

record contentStrategy =
  postingStrategy :: string
  cs_videosPerMonth :: rat
  avgLikesPerVideo :: rat
  hasExternalLinks :: bool
  isVerified :: bool
  isCommerce :: bool

text \<open>
  One entry of \<^verbatim>\<open>competitorAnalysis\<close>. The field \<open>rank\<close> is written by the
  \<^verbatim>\<open>forEach\<close> that follows the sort; the entry built by the \<^verbatim>\<open>map\<close> carries 0
  until then.
\<close>

record analysis =
  a_username :: string
  a_nickname :: "string option"
  a_verified :: "bool option"
  metrics :: metrics
  marketShare :: marketShare
  growth :: growth
  contentStrategy :: contentStrategy
  tier :: string
  rank :: rat

record insight =
  i_type :: string
  i_message :: "part list"
  i_severity :: string
  i_disclaimer :: "string option"

record summary =
  totalCreators :: rat
  totalFollowers :: rat
  totalLikes :: rat
  avgFollowers :: rat
  avgEngagement :: rat

record rankings =
  byFollowers :: "(string \<times> rat \<times> rat) list"
  byEngagement :: "(string \<times> rat \<times> rat) list"
  byGrowth :: "(string \<times> rat \<times> rat) list"

record highlights =
  marketLeader :: "string \<times> rat \<times> rat"
  challenger :: "string \<times> rat \<times> rat"
  fastestGrowing :: "string \<times> rat"
  highestEngagement :: "string \<times> rat"

record landscape =
  l_summary :: summary
  l_rankings :: rankings
  l_highlights :: highlights
  l_competitors :: "analysis list"
  l_insights :: "insight list"

text \<open>What \<^verbatim>\<open>analyzeCompetitiveLandscape\<close> returns: the error object or the analysis.\<close>

datatype landscape_result = ErrorResult string | Landscape landscape

record recommendation =
  category :: string
  priority :: string
  action :: "part list"
  impact :: "part list"
  disclaimer :: "string option"

record benchmark_entry =
  b_rank :: rat
  b_percentile :: rat
  b_total :: rat
  b_label :: string

record gap =
  gap_followers :: rat
  gap_percentage :: jsnum
  gap_disclaimer :: string

record benchmark =
  target :: analysis
  bm_followers :: benchmark_entry
  bm_engagement :: benchmark_entry
  bm_growth :: benchmark_entry
  gapToLeader :: "gap option"
  isLeader :: bool
  competitorCount :: rat
  bm_landscape :: summary
  recommendations :: "recommendation list"

section \<open>Leaf functions\<close>

definition validateCreatorForAnalysis :: "creator option \<Rightarrow> bool \<times> string list" where
  "validateCreatorForAnalysis c =
     (case c of
        None \<Rightarrow> (False, [''Creator is null/undefined''])
      | Some creator \<Rightarrow>
          (let neg = (\<lambda>v. case v of None \<Rightarrow> False | Some (x::rat) \<Rightarrow> x < 0);
               errors = [];
               errors = pushIf (neg (followers creator)) ''Followers cannot be negative'' errors;
               errors = pushIf (neg (likes creator)) ''Likes cannot be negative'' errors;
               errors = pushIf (neg (videos creator)) ''Video count cannot be negative'' errors;
               errors = pushIf (neg (accountAgeDays creator)) ''Account age cannot be negative'' errors
           in (length errors = 0, errors)))"

definition analyzeContentStrategy :: "creator \<Rightarrow> contentStrategy" where
  "analyzeContentStrategy creator =
     (let videos' = orElse (videos creator) 0;
          accountAgeDays' = orElse (accountAgeDays creator) 365;
          likes' = orElse (likes creator) 0;
          videosPerMonth' = (videos' / accountAgeDays') * 30;
          avgLikesPerVideo' = (if 0 < videos' then likes' / videos' else 0);
          postingStrategy' =
            (if 60 \<le> videosPerMonth' then ''high-volume''
             else if 20 \<le> videosPerMonth' then ''consistent''
             else if 5 \<le> videosPerMonth' then ''moderate''
             else ''quality-focused'')
      in \<lparr> postingStrategy = postingStrategy',
           cs_videosPerMonth = Math_round (videosPerMonth' * 10) / 10,
           avgLikesPerVideo = Math_round avgLikesPerVideo',
           hasExternalLinks = truthyS (bioLink creator),
           isVerified = truthyB (verified creator),
           isCommerce = (truthyB (commerceUser creator) \<or> truthyB (ttSeller creator)) \<rparr>)"

definition getTier :: "rat \<Rightarrow> string" where
  "getTier n =
     (if 1000000 \<le> n then ''mega''
      else if 500000 \<le> n then ''macro''
      else if 100000 \<le> n then ''mid-tier''
      else if 10000 \<le> n then ''micro''
      else ''nano'')"

definition getPercentileLabel :: "rat \<Rightarrow> string" where
  "getPercentileLabel percentile =
     (if 90 \<le> percentile then ''Top 10%''
      else if 75 \<le> percentile then ''Top 25%''
      else if 50 \<le> percentile then ''Above Average''
      else if 25 \<le> percentile then ''Below Average''
      else ''Bottom 25%'')"

section \<open>Insight generator\<close>

definition generateInsights ::
  "analysis list \<Rightarrow> analysis \<Rightarrow> analysis option \<Rightarrow> analysis \<Rightarrow> analysis \<Rightarrow> insight list" where
  "generateInsights competitors leader challenger' fastestGrowing' highestEngagement' =
     (let insights = [];
          insights =
            pushIf (50 < ms_followers (marketShare leader))
              \<lparr> i_type = ''market_dominance'',
                i_message = [Lit ''@'', Str (a_username leader), Lit '' dominates with '',
                             NumStr (Fin (ms_followers (marketShare leader))),
                             Lit ''% of total followers''],
                i_severity = ''info'', i_disclaimer = None \<rparr>
              insights;
          insights =
            (case challenger' of
               None \<Rightarrow> insights
             | Some ch \<Rightarrow>
                 pushIf (followersPerMonth (growth leader) < followersPerMonth (growth ch))
                   \<lparr> i_type = ''challenger_rising'',
                     i_message = [Lit ''@'', Str (a_username ch),
                                  Lit '' is growing faster than the leader ('',
                                  ToLocale (Fin (followersPerMonth (growth ch))), Lit '' vs '',
                                  ToLocale (Fin (followersPerMonth (growth leader))),
                                  Lit '' followers/month)''],
                     i_severity = ''warning'', i_disclaimer = None \<rparr>
                   insights);
          insights =
            pushIf (a_username highestEngagement' \<noteq> a_username leader)
              \<lparr> i_type = ''engagement_opportunity'',
                i_message = [Lit ''@'', Str (a_username highestEngagement'),
                             Lit '' has highest engagement ('',
                             NumStr (Fin (m_engagementRate (metrics highestEngagement'))),
                             Lit ''%) but fewer followers''],
                i_severity = ''opportunity'', i_disclaimer = None \<rparr>
              insights;
          avgGrowth =
            js_div (foldl (\<lambda>sum c. sum + followersPerMonth (growth c)) 0 competitors)
                   (of_nat (length competitors));
          insights =
            pushIf (js_gt (followersPerMonth (growth fastestGrowing')) (js_mul avgGrowth 2))
              \<lparr> i_type = ''growth_outlier'',
                i_message = [Lit ''@'', Str (a_username fastestGrowing'),
                             Lit '' is growing 2x faster than average ('',
                             ToLocale (Fin (followersPerMonth (growth fastestGrowing'))),
                             Lit ''/month)''],
                i_severity = ''info'',
                i_disclaimer = Some ''Growth extrapolation assumes linear trend - algorithm changes or viral moments can significantly alter this'' \<rparr>
              insights;
          strategies = setToArray (map (\<lambda>c. postingStrategy (contentStrategy c)) competitors);
          insights =
            pushIf (length strategies = 1)
              \<lparr> i_type = ''strategy_uniformity'',
                i_message = [Lit ''All competitors use similar '', Str (hd strategies),
                             Lit '' posting strategy - differentiation opportunity''],
                i_severity = ''opportunity'', i_disclaimer = None \<rparr>
              insights
      in insights)"

section \<open>Landscape analyzer\<close>

text \<open>
  The callback of \<^verbatim>\<open>creators.map\<close>, with the two totals it closes over. The
  validation it runs first only writes a warning to the console and changes nothing.
\<close>

definition analyzeCreator :: "rat \<Rightarrow> rat \<Rightarrow> creator \<Rightarrow> analysis" where
  "analyzeCreator totalFollowers' totalLikes' creator =
     (let followers' = orElse (followers creator) 0;
          likes' = orElse (likes creator) 0;
          engagementRate' = orElse (engagementRate creator) 0;
          videos' = orElse (videos creator) 0;
          accountAgeDays' = orElse (accountAgeDays creator) 365
      in \<lparr> a_username = username creator,
           a_nickname = nickname creator,
           a_verified = verified creator,
           metrics =
             \<lparr> m_followers = followers', m_likes = likes', m_videos = videos',
               m_engagementRate = Math_round (engagementRate' * 100) / 100,
               m_accountAgeDays = accountAgeDays' \<rparr>,
           marketShare =
             \<lparr> ms_followers =
                 (if 0 < totalFollowers'
                  then Math_round ((followers' / totalFollowers') * 10000) / 100 else 0),
               ms_likes =
                 (if 0 < totalLikes'
                  then Math_round ((likes' / totalLikes') * 10000) / 100 else 0) \<rparr>,
           growth =
             \<lparr> followersPerDay = Math_round (followers' / accountAgeDays'),
               followersPerMonth = Math_round ((followers' / accountAgeDays') * 30),
               videosPerMonth = Math_round ((videos' / accountAgeDays') * 30 * 10) / 10 \<rparr>,
           contentStrategy = analyzeContentStrategy creator,
           tier = getTier followers',
           rank = 0 \<rparr>)"

text \<open>\<^verbatim>\<open>competitorAnalysis.forEach((c, i) => { c.rank = i + 1; })\<close>\<close>

definition addRankings :: "analysis list \<Rightarrow> analysis list" where
  "addRankings xs = map (\<lambda>(i, c). c\<lparr>rank := of_nat i + 1\<rparr>) (enumerate 0 xs)"

text \<open>The rank \<open>i + 1\<close> that the \<^verbatim>\<open>map((c, i) => ...)\<close> of a ranking view assigns.\<close>

definition withIndexRank :: "(analysis \<Rightarrow> rat) \<Rightarrow> analysis list \<Rightarrow> (string \<times> rat \<times> rat) list" where
  "withIndexRank val xs = map (\<lambda>(i, c). (a_username c, val c, of_nat i + 1)) (enumerate 0 xs)"

text \<open>
  The part of \<^verbatim>\<open>analyzeCompetitiveLandscape\<close> after the length check, on creators that
  are all present. With fewer than two entries \<open>leader\<close> or \<open>challenger\<close> would be
  \<^verbatim>\<open>undefined\<close> and reading their fields would raise. The two sorted copies are as
  long as the ranked list, so their element 0 is read where the list has two entries.
\<close>

definition buildLandscape :: "creator list \<Rightarrow> js_error + landscape" where
  "buildLandscape creators =
     (let totalFollowers' = foldl (\<lambda>sum c. sum + orElse (followers c) 0) 0 creators;
          totalLikes' = foldl (\<lambda>sum c. sum + orElse (likes c) 0) 0 creators;
          competitorAnalysis = map (analyzeCreator totalFollowers' totalLikes') creators;
          competitorAnalysis = sortDesc (\<lambda>c. m_followers (metrics c)) competitorAnalysis;
          competitorAnalysis = addRankings competitorAnalysis
      in case competitorAnalysis of
           leader # challenger' # _ \<Rightarrow>
             (let fastestGrowing' =
                    hd (sortDesc (\<lambda>c. followersPerMonth (growth c)) competitorAnalysis);
                  highestEngagement' =
                    hd (sortDesc (\<lambda>c. m_engagementRate (metrics c)) competitorAnalysis);
                  insights = generateInsights competitorAnalysis leader (Some challenger')
                               fastestGrowing' highestEngagement'
              in Inr
                \<lparr> l_summary =
                    \<lparr> totalCreators = of_nat (length creators),
                      totalFollowers = totalFollowers',
                      totalLikes = totalLikes',
                      avgFollowers = Math_round (totalFollowers' / of_nat (length creators)),
                      avgEngagement =
                        Math_round
                          (foldl (\<lambda>sum c. sum + m_engagementRate (metrics c)) 0 competitorAnalysis
                             / of_nat (length creators) * 100) / 100 \<rparr>,
                  l_rankings =
                    \<lparr> byFollowers =
                        map (\<lambda>c. (a_username c, m_followers (metrics c), rank c)) competitorAnalysis,
                      byEngagement =
                        withIndexRank (\<lambda>c. m_engagementRate (metrics c))
                          (sortDesc (\<lambda>c. m_engagementRate (metrics c)) competitorAnalysis),
                      byGrowth =
                        withIndexRank (\<lambda>c. followersPerMonth (growth c))
                          (sortDesc (\<lambda>c. followersPerMonth (growth c)) competitorAnalysis) \<rparr>,
                  l_highlights =
                    \<lparr> marketLeader =
                        (a_username leader, m_followers (metrics leader),
                         ms_followers (marketShare leader)),
                      challenger =
                        (a_username challenger', m_followers (metrics challenger'),
                         m_followers (metrics leader) - m_followers (metrics challenger')),
                      fastestGrowing =
                        (a_username fastestGrowing', followersPerMonth (growth fastestGrowing')),
                      highestEngagement =
                        (a_username highestEngagement',
                         m_engagementRate (metrics highestEngagement')) \<rparr>,
                  l_competitors = competitorAnalysis,
                  l_insights = insights \<rparr>)
         | _ \<Rightarrow> Inl TypeError)"

text \<open>
  The exported function. An entry of the array may be \<^verbatim>\<open>undefined\<close> (the benchmark
  passes its target on unchecked): once the length check has passed, the first
  \<^verbatim>\<open>reduce\<close> reads \<^verbatim>\<open>c.followers\<close> of every entry and raises on such an entry.
\<close>

definition analyzeCompetitiveLandscape :: "creator option list \<Rightarrow> js_error + landscape_result" where
  "analyzeCompetitiveLandscape creators =
     (if length creators < 2
      then Inr (ErrorResult ''Need at least 2 creators for competitive analysis'')
      else case those creators of
             None \<Rightarrow> Inl TypeError
           | Some cs \<Rightarrow>
               (case buildLandscape cs of Inl e \<Rightarrow> Inl e | Inr l \<Rightarrow> Inr (Landscape l)))"

section \<open>Recommendation generator\<close>

definition generateBenchmarkRecommendations ::
  "analysis \<Rightarrow> analysis list \<Rightarrow> analysis \<Rightarrow> recommendation list" where
  "generateBenchmarkRecommendations target' competitors leader =
     (let recommendations' = [];
          avgCompetitorEngagement =
            js_div (foldl (\<lambda>sum c. sum + m_engagementRate (metrics c)) 0 competitors)
                   (of_nat (length competitors));
          recommendations' =
            (if js_lt (m_engagementRate (metrics target')) avgCompetitorEngagement
             then recommendations' @
               [\<lparr> category = ''Engagement'', priority = ''high'',
                  action = [Lit ''Improve engagement rate from '',
                            NumStr (Fin (m_engagementRate (metrics target'))),
                            Lit ''% to match competitor average of '',
                            ToFixed 1 avgCompetitorEngagement, Lit ''%''],
                  impact = [Lit ''Better algorithm visibility and sponsorship rates''],
                  disclaimer = None \<rparr>]
             else recommendations' @
               [\<lparr> category = ''Engagement'', priority = ''low'',
                  action = [Lit ''Maintain strong engagement rate ('',
                            NumStr (Fin (m_engagementRate (metrics target'))), Lit ''% vs '',
                            ToFixed 1 avgCompetitorEngagement, Lit ''% avg)''],
                  impact = [Lit ''Key competitive advantage''],
                  disclaimer = None \<rparr>]);
          avgPostingFreq =
            js_div (foldl (\<lambda>sum c. sum + videosPerMonth (growth c)) 0 competitors)
                   (of_nat (length competitors));
          recommendations' =
            pushIf (js_lt (videosPerMonth (growth target')) (js_mul avgPostingFreq (7 / 10)))
              \<lparr> category = ''Content Volume'', priority = ''medium'',
                action = [Lit ''Increase posting frequency from '',
                          NumStr (Fin (videosPerMonth (growth target'))), Lit '' to '',
                          NumStr (js_round avgPostingFreq), Lit '' videos/month''],
                impact = [Lit ''Match competitor content output''],
                disclaimer = None \<rparr>
              recommendations';
          recommendations' =
            (if a_username target' \<noteq> a_username leader
             then
               (let followerGap = m_followers (metrics leader) - m_followers (metrics target');
                    growthDifference =
                      followersPerMonth (growth target') - followersPerMonth (growth leader);
                    monthsToLeader =
                      (if 100 < growthDifference
                       then Some (min (Math_round (followerGap / growthDifference)) 24)
                       else None);
                    canOvertake = (100 < growthDifference)
                in case (if canOvertake then monthsToLeader else None) of
                     Some months \<Rightarrow>
                       recommendations' @
                         [\<lparr> category = ''Growth'', priority = ''low'',
                            action = [Lit ''Maintain growth velocity - on track to overtake leader in ~'',
                                      NumStr (Fin months), Lit '' months''],
                            impact = [Lit ''Market leadership potential (if growth trend continues)''],
                            disclaimer = Some ''Assumes linear growth - algorithm changes or viral moments can alter timeline'' \<rparr>]
                   | None \<Rightarrow>
                       recommendations' @
                         [\<lparr> category = ''Growth'', priority = ''high'',
                            action = [Lit ''Increase growth rate to close '',
                                      NumStr (Fin (Math_round (followerGap / 1000000 * 10) / 10)),
                                      Lit ''M follower gap with leader''],
                            impact = [Lit ''Currently '',
                                      ToLocale (Fin (followersPerMonth (growth target'))),
                                      Lit '' followers/month (leader: '',
                                      ToLocale (Fin (followersPerMonth (growth leader))), Lit '')''],
                            disclaimer = Some ''Growth projections assume linear extrapolation - platform dynamics may vary significantly'' \<rparr>])
             else recommendations');
          recommendations' =
            pushIf (\<not> truthyB (a_verified target') \<and> list_ex (\<lambda>c. truthyB (a_verified c)) competitors)
              \<lparr> category = ''Credibility'', priority = ''medium'',
                action = [Lit ''Pursue platform verification''],
                impact = [Lit ''Match verified competitors for brand trust''],
                disclaimer = None \<rparr>
              recommendations'
      in recommendations')"

section \<open>Benchmark engine\<close>

text \<open>
  Rounding to binary64, the number format of JavaScript: the nearest multiple of
  \<open>2 ^ (e - 52)\<close>, where \<open>2 ^ e \<le> \<bar>x\<bar> < 2 ^ (e + 1)\<close>, a tie going to the even
  multiple. Overflow and subnormal numbers are left out: the values rounded here lie
  between \<open>2 ^ - 1022\<close> and \<open>2 ^ 1024\<close> in magnitude, or are 0.
\<close>

definition roundTiesToEven :: "rat \<Rightarrow> int" where
  "roundTiesToEven y =
     (let f = \<lfloor>y\<rfloor>; d = y - of_int f
      in if d < 1 / 2 then f else if 1 / 2 < d then f + 1 else if even f then f else f + 1)"

text \<open>The binary exponent \<open>e\<close> of a positive number, from the bit lengths of its
  numerator and denominator.\<close>

definition exponentOf :: "rat \<Rightarrow> int" where
  "exponentOf x =
     (let (p, q) = quotient_of x; e = bitlen p - bitlen q
      in if 2 powi e \<le> x then e else e - 1)"

definition toDouble :: "rat \<Rightarrow> rat" where
  "toDouble x =
     (if x = 0 then 0
      else let u = 2 powi (exponentOf \<bar>x\<bar> - 52) in of_int (roundTiesToEven (x / u)) * u)"

text \<open>
  \<^verbatim>\<open>Math.round((1 - (rank - 1) / allCreators.length) * 100)\<close>, written three times in
  the source. The rank and the length are integers, so \<open>rank - 1\<close> is exact; the
  division, the subtraction from 1 and the multiplication by 100 each round to binary64.
  It is only reached with at least two creators.
\<close>

definition percentileOf :: "rat \<Rightarrow> rat \<Rightarrow> rat" where
  "percentileOf rank' total' =
     Math_round (toDouble (toDouble (1 - toDouble ((rank' - 1) / total')) * 100))"

text \<open>
  The body of \<^verbatim>\<open>benchmarkCreator\<close> from the percentiles on, once the landscape, the
  target's entry \<open>targetAnalysis\<close> and the first entry \<open>leader\<close> have been read.
  The local \<^verbatim>\<open>gapToLeader\<close> is 0 for the leader in the source; the result replaces
  it by \<^verbatim>\<open>null\<close> under the same test, so \<open>None\<close> stands for both.
  In \<^verbatim>\<open>target\<close> the spread of \<open>targetAnalysis\<close> overwrites the username written
  before it, so the field is \<open>targetAnalysis\<close>.
\<close>

definition benchmarkResult ::
  "creator \<Rightarrow> creator list \<Rightarrow> landscape \<Rightarrow> analysis \<Rightarrow> analysis \<Rightarrow> benchmark" where
  "benchmarkResult tgt competitors landscape' targetAnalysis leader =
     (let competitorAnalyses =
            filter (\<lambda>c. a_username c \<noteq> username tgt) (l_competitors landscape');
          total' = of_nat (length (Some tgt # map Some competitors));
          followerRank = rank targetAnalysis;
          followerPercentile = percentileOf followerRank total';
          engagementRanks =
            sortDesc (\<lambda>c. m_engagementRate (metrics c)) (l_competitors landscape');
          engagementRank =
            of_int (findIndex (\<lambda>c. a_username c = username tgt) engagementRanks) + 1;
          engagementPercentile = percentileOf engagementRank total';
          growthRanks =
            sortDesc (\<lambda>c. followersPerMonth (growth c)) (l_competitors landscape');
          growthRank =
            of_int (findIndex (\<lambda>c. a_username c = username tgt) growthRanks) + 1;
          growthPercentile = percentileOf growthRank total';
          gapToLeader' =
            (if a_username leader = username tgt then None
             else Some
               \<lparr> gap_followers =
                   m_followers (metrics leader) - m_followers (metrics targetAnalysis),
                 gap_percentage =
                   js_round (js_mul
                     (js_div (m_followers (metrics leader) - m_followers (metrics targetAnalysis))
                             (m_followers (metrics leader))) 100),
                 gap_disclaimer = ''Gap based on current follower count - actual market reach differs based on engagement and algorithm'' \<rparr>);
          recommendations' =
            generateBenchmarkRecommendations targetAnalysis competitorAnalyses leader
      in \<lparr> target = targetAnalysis,
           bm_followers =
             \<lparr> b_rank = followerRank, b_percentile = followerPercentile,
               b_total = total', b_label = getPercentileLabel followerPercentile \<rparr>,
           bm_engagement =
             \<lparr> b_rank = engagementRank, b_percentile = engagementPercentile,
               b_total = total', b_label = getPercentileLabel engagementPercentile \<rparr>,
           bm_growth =
             \<lparr> b_rank = growthRank, b_percentile = growthPercentile,
               b_total = total', b_label = getPercentileLabel growthPercentile \<rparr>,
           gapToLeader = (if a_username leader = username tgt then None else gapToLeader'),
           isLeader = (a_username leader = username tgt),
           competitorCount = of_nat (length competitors),
           bm_landscape = l_summary landscape',
           recommendations = recommendations' \<rparr>)"

text \<open>
  \<^verbatim>\<open>benchmarkCreator(target, competitors)\<close>. The target may be absent. The function has
  no check of its own: the error object of the landscape analyzer has no
  \<^verbatim>\<open>competitors\<close>, and \<^verbatim>\<open>landscape.competitors.find\<close> raises on it; reading
  \<^verbatim>\<open>rank\<close> of a target that was not found, or \<^verbatim>\<open>username\<close> of a missing first
  entry, would raise as well.
\<close>

definition benchmarkCreator :: "creator option \<Rightarrow> creator list \<Rightarrow> js_error + benchmark" where
  "benchmarkCreator target' competitors =
     (let allCreators = target' # map Some competitors
      in case analyzeCompetitiveLandscape allCreators of
           Inl e \<Rightarrow> Inl e
         | Inr (ErrorResult _) \<Rightarrow> Inl TypeError
         | Inr (Landscape landscape') \<Rightarrow>
             (case target' of
                None \<Rightarrow> Inl TypeError
              | Some tgt \<Rightarrow>
                  (case find (\<lambda>c. a_username c = username tgt) (l_competitors landscape') of
                     None \<Rightarrow> Inl TypeError
                   | Some targetAnalysis \<Rightarrow>
                       (case l_competitors landscape' of
                          [] \<Rightarrow> Inl TypeError
                        | leader # _ \<Rightarrow>
                            Inr (benchmarkResult tgt competitors landscape' targetAnalysis leader)))))"

section \<open>The entry point's selection of the benchmark input\<close>

text \<open>
  \<^verbatim>\<open>main.js\<close>, benchmark mode, after the profiles have been fetched: the target is the
  first profile whose username equals the requested one up to case, the competitors are
  the profiles whose usernames differ from it up to case, and both checks are explicit
  \<^verbatim>\<open>throw\<close> statements before \<^verbatim>\<open>benchmarkCreator\<close> is called.
\<close>

definition selectBenchmarkInput :: "string \<Rightarrow> creator list \<Rightarrow> js_error + (creator \<times> creator list)" where
  "selectBenchmarkInput targetUsername allProfiles =
     (let targetProfile =
            find (\<lambda>p. toLowerCase (username p) = toLowerCase targetUsername) allProfiles;
          competitorProfiles =
            filter (\<lambda>p. toLowerCase (username p) \<noteq> toLowerCase targetUsername) allProfiles
      in case targetProfile of
           None \<Rightarrow> Inl (Error (''Could not find target profile: @'' @ targetUsername))
         | Some t \<Rightarrow>
             if length competitorProfiles = 0 then Inl (Error ''No competitor profiles found'')
             else Inr (t, competitorProfiles))"

section \<open>Names for intermediate values, and example inputs\<close>

text \<open>The two totals that \<^verbatim>\<open>analyzeCompetitiveLandscape\<close> computes with \<^verbatim>\<open>reduce\<close>.\<close>

abbreviation followerTotal :: "creator list \<Rightarrow> rat" where
  "followerTotal cs \<equiv> foldl (\<lambda>sum c. sum + orElse (followers c) 0) 0 cs"

abbreviation likeTotal :: "creator list \<Rightarrow> rat" where
  "likeTotal cs \<equiv> foldl (\<lambda>sum c. sum + orElse (likes c) 0) 0 cs"

text \<open>
  The value of \<^verbatim>\<open>competitorAnalysis\<close> once the \<^verbatim>\<open>forEach\<close> has written the ranks:
  this is the list that \<^const>\<open>buildLandscape\<close> returns as \<open>l_competitors\<close>
  (lemma \<open>buildLandscape_ok\<close> below).
\<close>

definition rankedAnalyses :: "creator list \<Rightarrow> analysis list" where
  "rankedAnalyses cs =
     addRankings (sortDesc (\<lambda>c. m_followers (metrics c))
       (map (analyzeCreator (followerTotal cs) (likeTotal cs)) cs))"

text \<open>
  An example profile that has a username and, where given, followers, an engagement rate
  and an account age; every other field is absent.
\<close>

definition profile :: "string \<Rightarrow> rat option \<Rightarrow> rat option \<Rightarrow> rat option \<Rightarrow> creator" where
  "profile u f e a =
     \<lparr> username = u, nickname = None, verified = None, followers = f, likes = None,
       videos = None, engagementRate = e, accountAgeDays = a, bioLink = None,
       commerceUser = None, ttSeller = None \<rparr>"

text \<open>
  What the percentile lemmas establish for one entry of \<open>benchmarks\<close> in a
  benchmark of \<open>N\<close> creators.
\<close>

definition entryOk :: "nat \<Rightarrow> benchmark_entry \<Rightarrow> bool" where
  "entryOk N e \<longleftrightarrow>
     b_total e = of_nat N \<and>
     (\<exists>k. 1 \<le> k \<and> k \<le> N \<and> b_rank e = of_nat k) \<and>
     b_percentile e =
       Math_round (toDouble (toDouble (1 - toDouble ((b_rank e - 1) / of_nat N)) * 100)) \<and>
     0 \<le> b_percentile e \<and> b_percentile e \<le> 100 \<and>
     (b_rank e = 1 \<longrightarrow> b_percentile e = 100) \<and>
     (b_rank e = of_nat N \<and> N < 2 ^ 32 \<longrightarrow> b_percentile e = Math_round (100 / of_nat N)) \<and>
     b_label e = getPercentileLabel (b_percentile e)"

text \<open>
  A benchmark of forty creators with pairwise different usernames: the target "t" with
  2250 followers and 39 competitors with 100, 200, ..., 3900 followers, of which 17 have
  more followers than the target.
\<close>

definition fortyTarget :: creator where
  "fortyTarget = profile ''t'' (Some 2250) None None"

definition fortyCompetitors :: "creator list" where
  "fortyCompetitors =
     [profile ''c01'' (Some 100) None None,
      profile ''c02'' (Some 200) None None,
      profile ''c03'' (Some 300) None None,
      profile ''c04'' (Some 400) None None,
      profile ''c05'' (Some 500) None None,
      profile ''c06'' (Some 600) None None,
      profile ''c07'' (Some 700) None None,
      profile ''c08'' (Some 800) None None,
      profile ''c09'' (Some 900) None None,
      profile ''c10'' (Some 1000) None None,
      profile ''c11'' (Some 1100) None None,
      profile ''c12'' (Some 1200) None None,
      profile ''c13'' (Some 1300) None None,
      profile ''c14'' (Some 1400) None None,
      profile ''c15'' (Some 1500) None None,
      profile ''c16'' (Some 1600) None None,
      profile ''c17'' (Some 1700) None None,
      profile ''c18'' (Some 1800) None None,
      profile ''c19'' (Some 1900) None None,
      profile ''c20'' (Some 2000) None None,
      profile ''c21'' (Some 2100) None None,
      profile ''c22'' (Some 2200) None None,
      profile ''c23'' (Some 2300) None None,
      profile ''c24'' (Some 2400) None None,
      profile ''c25'' (Some 2500) None None,
      profile ''c26'' (Some 2600) None None,
      profile ''c27'' (Some 2700) None None,
      profile ''c28'' (Some 2800) None None,
      profile ''c29'' (Some 2900) None None,
      profile ''c30'' (Some 3000) None None,
      profile ''c31'' (Some 3100) None None,
      profile ''c32'' (Some 3200) None None,
      profile ''c33'' (Some 3300) None None,
      profile ''c34'' (Some 3400) None None,
      profile ''c35'' (Some 3500) None None,
      profile ''c36'' (Some 3600) None None,
      profile ''c37'' (Some 3700) None None,
      profile ''c38'' (Some 3800) None None,
      profile ''c39'' (Some 3900) None None]"

section \<open>Basic facts\<close>

lemma floor_rat_numeral_divide [simp]:
  "\<lfloor>numeral a / numeral b :: rat\<rfloor> = numeral a div numeral b"
  by (metis floor_divide_of_int_eq of_int_numeral)

lemma floor_rat_minus_numeral_divide [simp]:
  "\<lfloor>- (numeral a / numeral b) :: rat\<rfloor> = - numeral a div numeral b"
  by (metis divide_minus_left floor_divide_of_int_eq of_int_neg_numeral of_int_numeral)

lemma floor_rat_one_divide [simp]:
  "\<lfloor>1 / numeral b :: rat\<rfloor> = 1 div numeral b"
  by (metis floor_divide_of_int_eq of_int_1 of_int_numeral)

lemma floor_rat_minus_one_divide [simp]:
  "\<lfloor>- (1 / numeral b) :: rat\<rfloor> = - 1 div numeral b"
  by (metis (mono_tags, opaque_lifting) div_minus_right minus_divide_right
      floor_divide_of_int_eq of_int_neg_numeral of_int_1)

lemma length_addRankings [simp]: "length (addRankings xs) = length xs"
  by (simp add: addRankings_def)

lemma length_sortDesc [simp]: "length (sortDesc k xs) = length xs"
  by (simp add: sortDesc_def)

lemma length_rankedAnalyses [simp]: "length (rankedAnalyses cs) = length cs"
  by (simp add: rankedAnalyses_def)

lemma those_map_Some [simp]: "those (map Some xs) = Some xs"
  by (induction xs) auto

text \<open>With two creators or more the landscape analyzer returns an analysis.\<close>

lemma buildLandscape_ok:
  assumes "2 \<le> length cs"
  shows "\<exists>L. buildLandscape cs = Inr L \<and> l_competitors L = rankedAnalyses cs"
proof -
  have "2 \<le> length (rankedAnalyses cs)" using assms by simp
  then obtain a b rest where r: "rankedAnalyses cs = a # b # rest"
    by (cases "rankedAnalyses cs"; cases "tl (rankedAnalyses cs)") auto
  show ?thesis
    using r unfolding buildLandscape_def rankedAnalyses_def Let_def by simp
qed

lemma analyzeCompetitiveLandscape_ok:
  assumes "2 \<le> length cs"
  shows "\<exists>L. analyzeCompetitiveLandscape (map Some cs) = Inr (Landscape L)
          \<and> l_competitors L = rankedAnalyses cs"
  using buildLandscape_ok[OF assms] assms
  by (auto simp: analyzeCompetitiveLandscape_def)

text \<open>A function that does not read the rank sees the list as it was before the ranks.\<close>

lemma map_addRankings:
  assumes "\<And>c r. f (c\<lparr>rank := r\<rparr>) = f c"
  shows "map f (addRankings xs) = map f xs"
proof -
  have "map f (addRankings xs) = map (f \<circ> snd) (zip [0..<length xs] xs)"
    by (simp add: addRankings_def enumerate_eq_zip assms split_def comp_def)
  also have "\<dots> = map f (map snd (zip [0..<length xs] xs))" by (simp only: map_map)
  also have "\<dots> = map f xs" by (simp add: map_snd_zip)
  finally show ?thesis .
qed

lemma rank_addRankings: "map rank (addRankings xs) = map of_nat [1..<Suc (length xs)]"
proof -
  have "map rank (addRankings xs) = map ((\<lambda>i. of_nat i + 1) \<circ> fst) (zip [0..<length xs] xs)"
    by (simp add: addRankings_def enumerate_eq_zip split_def comp_def)
  also have "\<dots> = map (\<lambda>i. of_nat i + 1) (map fst (zip [0..<length xs] xs))"
    by (simp only: map_map)
  also have "\<dots> = map (\<lambda>i. of_nat i + 1) [0..<length xs]" by (simp add: map_fst_zip)
  also have "\<dots> = map of_nat (map Suc [0..<length xs])" by (simp add: comp_def)
  also have "\<dots> = map of_nat [1..<Suc (length xs)]" by (simp only: map_Suc_upt One_nat_def)
  finally show ?thesis .
qed

lemma sortDesc_sorted: "sorted_wrt (\<ge>) (map key (sortDesc key xs))"
proof -
  have "sorted (map (\<lambda>x. - key x) (sortDesc key xs))"
    unfolding sortDesc_def by (rule sorted_sort_key)
  then show ?thesis by (simp add: sorted_map sorted_wrt_map)
qed

lemma sortDesc_stable: "filter (\<lambda>x. key x = k) (sortDesc key xs) = filter (\<lambda>x. key x = k) xs"
  using sort_key_stable[of "\<lambda>x. - key x" "- k" xs] by (simp add: sortDesc_def)

lemma mset_sortDesc [simp]: "mset (sortDesc key xs) = mset xs"
  by (simp add: sortDesc_def)

lemma set_sortDesc [simp]: "set (sortDesc key xs) = set xs"
  by (simp add: sortDesc_def)

lemma rank_analyzeCreator [simp]: "rank (analyzeCreator T L c) = 0"
  by (simp add: analyzeCreator_def Let_def)

lemma unrank_id: "\<forall>x \<in> set xs. rank x = 0 \<Longrightarrow> map (\<lambda>c. c\<lparr>rank := 0\<rparr>) xs = xs"
  by (induction xs) auto

section \<open>Ranking\<close>

text \<open>
  Claim C4. For a list of at least two profiles the landscape analyzer returns an
  analysis whose ranks, read in list order, are 1, 2, ..., N: a permutation of 1..N
  without duplicates. The list is in descending order of followers, it holds the same
  entries as the per-creator analyses in input order, and for each follower count the
  entries with that count come in their input order (the sort is stable). The entries
  are compared with the rank set back to 0, which is what they carry before the ranks
  are written.
\<close>

theorem ranks_form_permutation:
  assumes "2 \<le> length cs"
  shows "\<exists>L. analyzeCompetitiveLandscape (map Some cs) = Inr (Landscape L)
     \<and> map rank (l_competitors L) = map of_nat [1..<Suc (length cs)]
     \<and> sorted_wrt (\<ge>) (map (\<lambda>c. m_followers (metrics c)) (l_competitors L))
     \<and> mset (map (\<lambda>c. c\<lparr>rank := 0\<rparr>) (l_competitors L))
         = mset (map (analyzeCreator (followerTotal cs) (likeTotal cs)) cs)
     \<and> (\<forall>k. filter (\<lambda>c. m_followers (metrics c) = k)
               (map (\<lambda>c. c\<lparr>rank := 0\<rparr>) (l_competitors L))
            = filter (\<lambda>c. m_followers (metrics c) = k)
                (map (analyzeCreator (followerTotal cs) (likeTotal cs)) cs))"
proof -
  let ?as = "map (analyzeCreator (followerTotal cs) (likeTotal cs)) cs"
  let ?key = "\<lambda>c. m_followers (metrics c)"
  obtain L where L: "analyzeCompetitiveLandscape (map Some cs) = Inr (Landscape L)"
    and comp: "l_competitors L = rankedAnalyses cs"
    using analyzeCompetitiveLandscape_ok[OF assms] by blast
  have r: "map rank (l_competitors L) = map of_nat [1..<Suc (length cs)]"
    using rank_addRankings[of "sortDesc ?key ?as"] by (simp add: comp rankedAnalyses_def)
  have "map ?key (l_competitors L) = map ?key (sortDesc ?key ?as)"
    unfolding comp rankedAnalyses_def by (rule map_addRankings) simp
  then have s: "sorted_wrt (\<ge>) (map ?key (l_competitors L))"
    using sortDesc_sorted[of ?key ?as] by simp
  have "map (\<lambda>c. c\<lparr>rank := 0\<rparr>) (l_competitors L) = map (\<lambda>c. c\<lparr>rank := 0\<rparr>) (sortDesc ?key ?as)"
    unfolding comp rankedAnalyses_def by (rule map_addRankings) simp
  also have "\<dots> = sortDesc ?key ?as"
    by (rule unrank_id) auto
  finally have u: "map (\<lambda>c. c\<lparr>rank := 0\<rparr>) (l_competitors L) = sortDesc ?key ?as" .
  have m: "mset (map (\<lambda>c. c\<lparr>rank := 0\<rparr>) (l_competitors L)) = mset ?as"
    by (simp add: u)
  have st: "\<forall>k. filter (\<lambda>c. ?key c = k) (map (\<lambda>c. c\<lparr>rank := 0\<rparr>) (l_competitors L))
            = filter (\<lambda>c. ?key c = k) ?as"
    by (simp add: u sortDesc_stable)
  show ?thesis using L r s m st by blast
qed

theorem ranks_form_permutation_witness:
  "2 \<le> length [profile ''a'' (Some 10) None None, profile ''b'' (Some 20) None None] \<and>
   (\<exists>L. analyzeCompetitiveLandscape
          (map Some [profile ''a'' (Some 10) None None, profile ''b'' (Some 20) None None])
            = Inr (Landscape L)
      \<and> map rank (l_competitors L) = [1, 2])"
  using ranks_form_permutation
          [of "[profile ''a'' (Some 10) None None, profile ''b'' (Some 20) None None]"]
  by (auto simp: upt_rec)

section \<open>Account age\<close>

text \<open>
  Claim C6, as stated, fails: an account age of -10 days is not replaced by 365. The
  profile below has 100 followers; the analyzer divides by -10 and reports -10 followers
  per day, where 365 days would give \<open>round (100 / 365) = 0\<close>.
\<close>

theorem negative_age_counterexample:
  "accountAgeDays (profile ''a'' (Some 100) None (Some (- 10))) = Some (- 10) \<and>
   followersPerDay (growth (analyzeCreator 100 0 (profile ''a'' (Some 100) None (Some (- 10)))))
     = - 10 \<and>
   followersPerDay (growth (analyzeCreator 100 0 (profile ''a'' (Some 100) None (Some (- 10)))))
     \<noteq> Math_round (100 / 365)"
  by (simp add: analyzeCreator_def profile_def orElse_def Math_round_def Let_def)

text \<open>
  Claim C6, amended. The age that the growth computation divides by is never 0. When
  \<open>accountAgeDays\<close> is absent or 0 it is 365, and then
  \<open>followersPerDay = round (followers / 365)\<close> (likewise for the two monthly
  figures). Any other age, a negative one included, is used as it is.
\<close>

theorem account_age_default:
  "m_accountAgeDays (metrics (analyzeCreator T L c)) \<noteq> 0 \<and>
   (accountAgeDays c = None \<or> accountAgeDays c = Some 0 \<longrightarrow>
      m_accountAgeDays (metrics (analyzeCreator T L c)) = 365 \<and>
      followersPerDay (growth (analyzeCreator T L c)) = Math_round (orElse (followers c) 0 / 365) \<and>
      followersPerMonth (growth (analyzeCreator T L c))
        = Math_round (orElse (followers c) 0 / 365 * 30) \<and>
      videosPerMonth (growth (analyzeCreator T L c))
        = Math_round (orElse (videos c) 0 / 365 * 30 * 10) / 10) \<and>
   (\<forall>a. accountAgeDays c = Some a \<and> a \<noteq> 0 \<longrightarrow>
      m_accountAgeDays (metrics (analyzeCreator T L c)) = a \<and>
      followersPerDay (growth (analyzeCreator T L c)) = Math_round (orElse (followers c) 0 / a))"
  by (auto simp: analyzeCreator_def orElse_def Let_def split: option.splits)

theorem account_age_default_witness:
  "accountAgeDays (profile ''a'' (Some 730) None None) = None \<and>
   followersPerDay (growth (analyzeCreator 730 0 (profile ''a'' (Some 730) None None))) = 2"
proof -
  have a: "accountAgeDays (profile ''a'' (Some 730) None None) = None"
    by (simp add: profile_def)
  have f: "orElse (followers (profile ''a'' (Some 730) None None)) 0 = 730"
    by (simp add: profile_def orElse_def)
  have "Math_round (730 / 365) = 2" by (simp add: Math_round_def)
  with a f account_age_default[of 730 0 "profile ''a'' (Some 730) None None"]
  show ?thesis by simp
qed

section \<open>Percentile labels\<close>

text \<open>
  Claim C10. The label of a percentile \<open>p\<close> follows fixed thresholds read from the
  top: "Top 10%" from 90, "Top 25%" from 75, "Above Average" from 50, "Below Average"
  from 25, and "Bottom 25%" below that; every \<open>p\<close> gets one of these five labels.
\<close>

theorem percentile_label_thresholds:
  "(90 \<le> p \<longrightarrow> getPercentileLabel p = ''Top 10%'') \<and>
   (75 \<le> p \<and> p < 90 \<longrightarrow> getPercentileLabel p = ''Top 25%'') \<and>
   (50 \<le> p \<and> p < 75 \<longrightarrow> getPercentileLabel p = ''Above Average'') \<and>
   (25 \<le> p \<and> p < 50 \<longrightarrow> getPercentileLabel p = ''Below Average'') \<and>
   (p < 25 \<longrightarrow> getPercentileLabel p = ''Bottom 25%'') \<and>
   getPercentileLabel p \<in>
     {''Top 10%'', ''Top 25%'', ''Above Average'', ''Below Average'', ''Bottom 25%''}"
  by (simp add: getPercentileLabel_def)

theorem percentile_label_thresholds_witness:
  "(75::rat) \<le> 80 \<and> (80::rat) < 90 \<and> getPercentileLabel 80 = ''Top 25%''"
  using percentile_label_thresholds[of 80] by simp

section \<open>Market share\<close>

lemma foldl_plus_sum_list:
  fixes g :: "'a \<Rightarrow> rat"
  shows "foldl (\<lambda>sum c. sum + g c) a xs = a + sum_list (map g xs)"
  by (induction xs arbitrary: a) auto

lemma Math_round_close: "\<bar>Math_round x - x\<bar> \<le> 1 / 2"
proof -
  have "of_int \<lfloor>x + 1 / 2\<rfloor> \<le> x + 1 / 2" by linarith
  moreover have "x + 1 / 2 < of_int \<lfloor>x + 1 / 2\<rfloor> + 1" by linarith
  ultimately show ?thesis unfolding Math_round_def by linarith
qed

lemma Math_round_int: "Math_round x \<in> \<int>"
  by (simp add: Math_round_def)

lemma sum_list_close:
  fixes a b :: "'a \<Rightarrow> rat"
  assumes "\<And>x. \<bar>a x - b x\<bar> \<le> e"
  shows "\<bar>sum_list (map a xs) - sum_list (map b xs)\<bar> \<le> of_nat (length xs) * e"
proof (induction xs)
  case Nil
  then show ?case by simp
next
  case (Cons x xs)
  have "\<bar>a x - b x\<bar> \<le> e" by (rule assms)
  with Cons show ?case by (simp add: algebra_simps)
qed

lemma sum_list_perm:
  "mset xs = mset ys \<Longrightarrow> sum_list (map g xs) = sum_list (map (g :: 'a \<Rightarrow> rat) ys)"
  by (metis mset_map sum_mset_sum_list)

lemma share_close:
  assumes "T \<noteq> 0"
  shows "\<bar>Math_round (f / T * 10000) / 100 - 100 / T * f\<bar> \<le> 1 / 200"
proof -
  define y where "y = f / T * 10000"
  have c: "\<bar>Math_round y - y\<bar> \<le> 1 / 2" by (rule Math_round_close)
  have e: "100 / T * f = y / 100" by (simp add: y_def)
  have h: "Math_round y / 100 - y / 100 = (Math_round y - y) / 100"
    by (simp add: diff_divide_distrib)
  have k: "\<bar>(Math_round y - y) / 100\<bar> = \<bar>Math_round y - y\<bar> / 100"
    by (simp only: abs_divide abs_numeral)
  have "\<bar>Math_round y - y\<bar> / 100 \<le> (1 / 2) / 100"
    using c by (rule divide_right_mono) simp
  then have "\<bar>(Math_round y - y) / 100\<bar> \<le> 1 / 200" unfolding k by simp
  then have "\<bar>Math_round y / 100 - y / 100\<bar> \<le> 1 / 200" by (simp only: h)
  then show ?thesis unfolding e unfolding y_def .
qed

lemma buildLandscape_totals:
  assumes "buildLandscape cs = Inr L"
  shows "totalFollowers (l_summary L) = followerTotal cs \<and> totalLikes (l_summary L) = likeTotal cs"
  using assms unfolding buildLandscape_def Let_def
  by (auto split: list.splits)

lemma ms_followers_analyzeCreator:
  "ms_followers (marketShare (analyzeCreator T L c))
     = (if 0 < T then Math_round (orElse (followers c) 0 / T * 10000) / 100 else 0)"
  by (simp add: analyzeCreator_def Let_def)

lemma ms_likes_analyzeCreator:
  "ms_likes (marketShare (analyzeCreator T L c))
     = (if 0 < L then Math_round (orElse (likes c) 0 / L * 10000) / 100 else 0)"
  by (simp add: analyzeCreator_def Let_def)

lemma set_rankedAnalyses_field:
  assumes "\<And>c r. f (c\<lparr>rank := r\<rparr>) = f c"
  shows "f ` set (rankedAnalyses cs) = f ` set (map (analyzeCreator (followerTotal cs) (likeTotal cs)) cs)"
proof -
  have "map f (rankedAnalyses cs)
      = map f (sortDesc (\<lambda>c. m_followers (metrics c)) (map (analyzeCreator (followerTotal cs) (likeTotal cs)) cs))"
    unfolding rankedAnalyses_def by (rule map_addRankings) (rule assms)
  then have "set (map f (rankedAnalyses cs))
      = set (map f (sortDesc (\<lambda>c. m_followers (metrics c)) (map (analyzeCreator (followerTotal cs) (likeTotal cs)) cs)))"
    by simp
  then show ?thesis by (simp only: set_map set_sortDesc)
qed

lemma share_sum_rankedAnalyses:
  "sum_list (map (\<lambda>c. ms_followers (marketShare c)) (rankedAnalyses cs))
     = sum_list (map (\<lambda>c. ms_followers (marketShare (analyzeCreator (followerTotal cs) (likeTotal cs) c))) cs)"
proof -
  let ?g = "\<lambda>c. ms_followers (marketShare c)"
  let ?as = "map (analyzeCreator (followerTotal cs) (likeTotal cs)) cs"
  have "map ?g (rankedAnalyses cs) = map ?g (sortDesc (\<lambda>c. m_followers (metrics c)) ?as)"
    unfolding rankedAnalyses_def by (rule map_addRankings) simp
  then have "sum_list (map ?g (rankedAnalyses cs))
      = sum_list (map ?g (sortDesc (\<lambda>c. m_followers (metrics c)) ?as))" by simp
  also have "\<dots> = sum_list (map ?g ?as)" by (rule sum_list_perm) simp
  also have "\<dots> = sum_list (map (\<lambda>c. ?g (analyzeCreator (followerTotal cs) (likeTotal cs) c)) cs)"
    by (simp add: comp_def)
  finally show ?thesis .
qed

lemma share_sum_close:
  assumes "0 < followerTotal cs"
  shows "\<bar>sum_list (map (\<lambda>c. ms_followers (marketShare c)) (rankedAnalyses cs)) - 100\<bar>
           \<le> of_nat (length cs) / 200"
proof -
  define T where "T = followerTotal cs"
  let ?h = "\<lambda>c. orElse (followers c) 0"
  have T: "T = sum_list (map ?h cs)" by (simp add: T_def foldl_plus_sum_list)
  have pos: "0 < T" using assms by (simp add: T_def)
  have "sum_list (map (\<lambda>c. 100 / T * ?h c) cs) = 100 / T * sum_list (map ?h cs)"
    by (rule sum_list_const_mult)
  also have "\<dots> = 100" using pos T by simp
  finally have exact: "sum_list (map (\<lambda>c. 100 / T * ?h c) cs) = 100" .
  have "\<bar>sum_list (map (\<lambda>c. Math_round (?h c / T * 10000) / 100) cs)
         - sum_list (map (\<lambda>c. 100 / T * ?h c) cs)\<bar> \<le> of_nat (length cs) * (1 / 200)"
    by (rule sum_list_close) (rule share_close, use pos in simp)
  then have close: "\<bar>sum_list (map (\<lambda>c. Math_round (?h c / T * 10000) / 100) cs) - 100\<bar>
      \<le> of_nat (length cs) / 200"
    unfolding exact by simp
  have "sum_list (map (\<lambda>c. ms_followers (marketShare c)) (rankedAnalyses cs))
      = sum_list (map (\<lambda>c. Math_round (?h c / T * 10000) / 100) cs)"
    unfolding share_sum_rankedAnalyses ms_followers_analyzeCreator
    using pos by (simp only: T_def if_True)
  with close show ?thesis by simp
qed

text \<open>
  Claim C5. For a list of at least two profiles the analyzer returns an analysis in
  which every follower share is a multiple of 0.01. If the total of the followers is
  positive, the follower shares of all competitors add up to 100 within 0.005 per
  competitor, the error of rounding one share to two decimals. If the total of the
  followers (of the likes) is 0, every follower share (like share) is 0: the division
  is not made.
\<close>

theorem market_share_sum:
  assumes "2 \<le> length cs"
  shows "\<exists>L. analyzeCompetitiveLandscape (map Some cs) = Inr (Landscape L)
     \<and> totalFollowers (l_summary L) = followerTotal cs
     \<and> totalLikes (l_summary L) = likeTotal cs
     \<and> (\<forall>c \<in> set (l_competitors L). ms_followers (marketShare c) * 100 \<in> \<int>)
     \<and> (0 < totalFollowers (l_summary L) \<longrightarrow>
          \<bar>sum_list (map (\<lambda>c. ms_followers (marketShare c)) (l_competitors L)) - 100\<bar>
            \<le> of_nat (length cs) / 200)
     \<and> (totalFollowers (l_summary L) = 0 \<longrightarrow>
          (\<forall>c \<in> set (l_competitors L). ms_followers (marketShare c) = 0))
     \<and> (totalLikes (l_summary L) = 0 \<longrightarrow>
          (\<forall>c \<in> set (l_competitors L). ms_likes (marketShare c) = 0))"
proof -
  obtain L where L: "analyzeCompetitiveLandscape (map Some cs) = Inr (Landscape L)"
    and comp: "l_competitors L = rankedAnalyses cs"
    using analyzeCompetitiveLandscape_ok[OF assms] by blast
  have "buildLandscape cs = Inr L"
    using L assms by (auto simp: analyzeCompetitiveLandscape_def split: sum.splits)
  then have tot: "totalFollowers (l_summary L) = followerTotal cs"
    "totalLikes (l_summary L) = likeTotal cs"
    using buildLandscape_totals by blast+
  have f: "(\<lambda>c. ms_followers (marketShare c)) ` set (rankedAnalyses cs)
      = (\<lambda>c. ms_followers (marketShare c)) ` set (map (analyzeCreator (followerTotal cs) (likeTotal cs)) cs)"
    by (rule set_rankedAnalyses_field) simp
  have l: "(\<lambda>c. ms_likes (marketShare c)) ` set (rankedAnalyses cs)
      = (\<lambda>c. ms_likes (marketShare c)) ` set (map (analyzeCreator (followerTotal cs) (likeTotal cs)) cs)"
    by (rule set_rankedAnalyses_field) simp
  have i: "\<forall>c \<in> set (l_competitors L). ms_followers (marketShare c) * 100 \<in> \<int>"
  proof
    fix c assume "c \<in> set (l_competitors L)"
    then have "ms_followers (marketShare c) \<in> (\<lambda>c. ms_followers (marketShare c)) ` set (rankedAnalyses cs)"
      by (simp add: comp)
    then obtain d where "ms_followers (marketShare c)
        = ms_followers (marketShare (analyzeCreator (followerTotal cs) (likeTotal cs) d))"
      unfolding f by auto
    then show "ms_followers (marketShare c) * 100 \<in> \<int>"
      by (simp add: ms_followers_analyzeCreator Math_round_int)
  qed
  have z: "followerTotal cs = 0 \<longrightarrow> (\<forall>c \<in> set (l_competitors L). ms_followers (marketShare c) = 0)"
  proof (intro impI ballI)
    fix c assume 0: "followerTotal cs = 0" and "c \<in> set (l_competitors L)"
    then have "ms_followers (marketShare c) \<in> (\<lambda>c. ms_followers (marketShare c)) ` set (rankedAnalyses cs)"
      by (simp add: comp)
    then obtain d where "ms_followers (marketShare c)
        = ms_followers (marketShare (analyzeCreator (followerTotal cs) (likeTotal cs) d))"
      unfolding f by auto
    then show "ms_followers (marketShare c) = 0"
      using 0 by (simp add: ms_followers_analyzeCreator)
  qed
  have zl: "likeTotal cs = 0 \<longrightarrow> (\<forall>c \<in> set (l_competitors L). ms_likes (marketShare c) = 0)"
  proof (intro impI ballI)
    fix c assume 0: "likeTotal cs = 0" and "c \<in> set (l_competitors L)"
    then have "ms_likes (marketShare c) \<in> (\<lambda>c. ms_likes (marketShare c)) ` set (rankedAnalyses cs)"
      by (simp add: comp)
    then obtain d where "ms_likes (marketShare c)
        = ms_likes (marketShare (analyzeCreator (followerTotal cs) (likeTotal cs) d))"
      unfolding l by auto
    then show "ms_likes (marketShare c) = 0"
      using 0 by (simp add: ms_likes_analyzeCreator)
  qed
  have s: "0 < followerTotal cs \<longrightarrow>
          \<bar>sum_list (map (\<lambda>c. ms_followers (marketShare c)) (l_competitors L)) - 100\<bar>
            \<le> of_nat (length cs) / 200"
    using share_sum_close by (simp add: comp)
  show ?thesis
    using L tot i z zl s by auto
qed

theorem market_share_sum_witness:
  "2 \<le> length [profile ''a'' (Some 10) None None, profile ''b'' (Some 20) None None] \<and>
   (\<exists>L. analyzeCompetitiveLandscape
          (map Some [profile ''a'' (Some 10) None None, profile ''b'' (Some 20) None None])
            = Inr (Landscape L)
      \<and> totalFollowers (l_summary L) = 30
      \<and> \<bar>sum_list (map (\<lambda>c. ms_followers (marketShare c)) (l_competitors L)) - 100\<bar> \<le> 1 / 100)"
proof -
  let ?ex = "[profile ''a'' (Some 10) None None, profile ''b'' (Some 20) None None]"
  have len: "2 \<le> length ?ex" by simp
  have tot: "followerTotal ?ex = 30" by (simp add: profile_def orElse_def)
  from market_share_sum[OF len] obtain L where
    L: "analyzeCompetitiveLandscape (map Some ?ex) = Inr (Landscape L)"
    and t: "totalFollowers (l_summary L) = followerTotal ?ex"
    and s: "0 < totalFollowers (l_summary L) \<longrightarrow>
          \<bar>sum_list (map (\<lambda>c. ms_followers (marketShare c)) (l_competitors L)) - 100\<bar>
            \<le> of_nat (length ?ex) / 200"
    by blast
  from t tot have t30: "totalFollowers (l_summary L) = 30" by simp
  with s have "\<bar>sum_list (map (\<lambda>c. ms_followers (marketShare c)) (l_competitors L)) - 100\<bar>
       \<le> 1 / 100" by simp
  with L t30 len show ?thesis by blast
qed

section \<open>Insights\<close>

lemma map_pushIf: "map f (pushIf c r xs) = pushIf c (f r) (map f xs)"
  by (simp add: pushIf_def)

lemma filter_pushIf: "filter P (pushIf c r xs) = pushIf (c \<and> P r) r (filter P xs)"
  by (simp add: pushIf_def)

lemma pushIf_False [simp]: "pushIf False x xs = xs"
  by (simp add: pushIf_def)

lemma setToArray_step:
  "distinct acc \<Longrightarrow>
   distinct (foldl (\<lambda>acc x. if x \<in> set acc then acc else acc @ [x]) acc xs) \<and>
   set (foldl (\<lambda>acc x. if x \<in> set acc then acc else acc @ [x]) acc xs) = set acc \<union> set xs"
  by (induction xs arbitrary: acc) auto

lemma length_setToArray: "length (setToArray xs) = card (set xs)"
proof -
  let ?r = "foldl (\<lambda>acc x. if x \<in> set acc then acc else acc @ [x]) [] xs"
  have d: "distinct ?r" and e: "set ?r = set xs"
    using setToArray_step[of "[]" xs] by simp_all
  from d have "card (set ?r) = length ?r" by (rule distinct_card)
  then have "length ?r = card (set xs)" unfolding e by simp
  then show ?thesis unfolding setToArray_def .
qed

lemma setToArray_single:
  "length (setToArray xs) = 1 \<longleftrightarrow> xs \<noteq> [] \<and> (\<forall>x \<in> set xs. \<forall>y \<in> set xs. x = y)"
proof -
  have "card (set xs) = 1 \<longleftrightarrow> set xs \<noteq> {} \<and> (\<forall>x \<in> set xs. \<forall>y \<in> set xs. x = y)"
  proof
    assume "card (set xs) = 1"
    then obtain a where "set xs = {a}" by (auto simp: card_1_singleton_iff)
    then show "set xs \<noteq> {} \<and> (\<forall>x \<in> set xs. \<forall>y \<in> set xs. x = y)" by simp
  next
    assume h: "set xs \<noteq> {} \<and> (\<forall>x \<in> set xs. \<forall>y \<in> set xs. x = y)"
    then have "xs \<noteq> []" by simp
    then obtain a where "a \<in> set xs" by (cases xs) auto
    with h have "set xs = {a}" by blast
    then show "card (set xs) = 1" by simp
  qed
  then show ?thesis by (simp add: length_setToArray)
qed

text \<open>
  Claim C9. For a non-empty competitor list the types of the insights that the
  generator returns are exactly those of the five types whose condition holds, in the
  fixed order market_dominance, challenger_rising, engagement_opportunity,
  growth_outlier, strategy_uniformity. The conditions: the leader's follower share
  is above 50; a challenger is given and grows faster per month than the leader; the
  entry with the highest engagement has another username than the leader; the fastest
  growing entry grows more than twice the mean monthly growth of the competitors; all
  competitors have the same posting strategy.
\<close>

theorem insights_in_fixed_order:
  assumes "competitors \<noteq> []"
  shows "map i_type (generateInsights competitors leader ch fg he) =
     filter (\<lambda>t.
        (t = ''market_dominance'' \<and> 50 < ms_followers (marketShare leader)) \<or>
        (t = ''challenger_rising'' \<and>
           (\<exists>c. ch = Some c \<and> followersPerMonth (growth leader) < followersPerMonth (growth c))) \<or>
        (t = ''engagement_opportunity'' \<and> a_username he \<noteq> a_username leader) \<or>
        (t = ''growth_outlier'' \<and>
           2 * (sum_list (map (\<lambda>c. followersPerMonth (growth c)) competitors)
                  / of_nat (length competitors)) < followersPerMonth (growth fg)) \<or>
        (t = ''strategy_uniformity'' \<and>
           (\<forall>c \<in> set competitors. \<forall>d \<in> set competitors.
               postingStrategy (contentStrategy c) = postingStrategy (contentStrategy d))))
      [''market_dominance'', ''challenger_rising'', ''engagement_opportunity'',
       ''growth_outlier'', ''strategy_uniformity'']"
proof -
  have avg: "js_gt x (js_mul (js_div (foldl (\<lambda>sum c. sum + followersPerMonth (growth c)) 0 competitors)
                 (of_nat (length competitors))) 2)
      \<longleftrightarrow> 2 * (sum_list (map (\<lambda>c. followersPerMonth (growth c)) competitors)
                  / of_nat (length competitors)) < x" for x
    using assms by (simp add: js_div_def foldl_plus_sum_list mult.commute)
  have uni: "length (setToArray (map (\<lambda>c. postingStrategy (contentStrategy c)) competitors)) = 1
      \<longleftrightarrow> (\<forall>c \<in> set competitors. \<forall>d \<in> set competitors.
               postingStrategy (contentStrategy c) = postingStrategy (contentStrategy d))"
    using assms by (simp only: setToArray_single) auto
  have rhs: "filter P [t1, t2, t3, t4, t5 :: string]
      = pushIf (P t5) t5 (pushIf (P t4) t4 (pushIf (P t3) t3 (pushIf (P t2) t2 (pushIf (P t1) t1 []))))"
    for P t1 t2 t3 t4 t5
    by (simp add: pushIf_def)
  show ?thesis
  proof (cases ch)
    case None
    show ?thesis
      unfolding rhs
      by (simp add: generateInsights_def Let_def map_pushIf None avg uni[simplified]
            split del: if_split)
  next
    case (Some c)
    show ?thesis
      unfolding rhs
      by (simp add: generateInsights_def Let_def map_pushIf Some avg uni[simplified]
            split del: if_split)
  qed
qed

theorem insights_in_fixed_order_witness:
  "[analyzeCreator 30 0 (profile ''a'' (Some 20) None None),
    analyzeCreator 30 0 (profile ''b'' (Some 10) None None)] \<noteq> [] \<and>
   map i_type (generateInsights
      [analyzeCreator 30 0 (profile ''a'' (Some 20) None None),
       analyzeCreator 30 0 (profile ''b'' (Some 10) None None)]
      (analyzeCreator 30 0 (profile ''a'' (Some 20) None None))
      (Some (analyzeCreator 30 0 (profile ''b'' (Some 10) None None)))
      (analyzeCreator 30 0 (profile ''a'' (Some 20) None None))
      (analyzeCreator 30 0 (profile ''a'' (Some 20) None None)))
    = [''market_dominance'', ''strategy_uniformity'']"
proof -
  let ?A = "analyzeCreator 30 0 (profile ''a'' (Some 20) None None)"
  let ?B = "analyzeCreator 30 0 (profile ''b'' (Some 10) None None)"
  have ne: "[?A, ?B] \<noteq> []" by simp
  have A: "ms_followers (marketShare ?A) = 6667 / 100" "followersPerMonth (growth ?A) = 2"
    "a_username ?A = ''a''" "postingStrategy (contentStrategy ?A) = ''quality-focused''"
    by (simp_all add: analyzeCreator_def analyzeContentStrategy_def profile_def orElse_def
          Math_round_def Let_def)
  have B: "followersPerMonth (growth ?B) = 1"
    "postingStrategy (contentStrategy ?B) = ''quality-focused''"
    by (simp_all add: analyzeCreator_def analyzeContentStrategy_def profile_def orElse_def
          Math_round_def Let_def)
  show ?thesis
    using insights_in_fixed_order[OF ne, of ?A "Some ?B" ?A ?A]
    by (simp add: A B)
qed

section \<open>Growth recommendation\<close>

text \<open>
  The recommendations of category Growth that the generator returns: none when the
  target has the leader's username; otherwise one, of low priority with the capped
  number of months when the difference of monthly growth is above 100, and of high
  priority with the gap in millions in every other case.
\<close>

lemma generator_growth_rule:
  fixes t l :: analysis
  defines "followerGap \<equiv> m_followers (metrics l) - m_followers (metrics t)"
    and "growthDelta \<equiv> followersPerMonth (growth t) - followersPerMonth (growth l)"
  shows "filter (\<lambda>r. category r = ''Growth'') (generateBenchmarkRecommendations t cs l) =
     (if a_username t = a_username l then []
      else if 100 < growthDelta then
        [\<lparr> category = ''Growth'', priority = ''low'',
           action = [Lit ''Maintain growth velocity - on track to overtake leader in ~'',
                     NumStr (Fin (min (Math_round (followerGap / growthDelta)) 24)),
                     Lit '' months''],
           impact = [Lit ''Market leadership potential (if growth trend continues)''],
           disclaimer = Some ''Assumes linear growth - algorithm changes or viral moments can alter timeline'' \<rparr>]
      else
        [\<lparr> category = ''Growth'', priority = ''high'',
           action = [Lit ''Increase growth rate to close '',
                     NumStr (Fin (Math_round (followerGap / 1000000 * 10) / 10)),
                     Lit ''M follower gap with leader''],
           impact = [Lit ''Currently '', ToLocale (Fin (followersPerMonth (growth t))),
                     Lit '' followers/month (leader: '',
                     ToLocale (Fin (followersPerMonth (growth l))), Lit '')''],
           disclaimer = Some ''Growth projections assume linear extrapolation - platform dynamics may vary significantly'' \<rparr>])"
  unfolding generateBenchmarkRecommendations_def Let_def followerGap_def growthDelta_def
  by (simp add: filter_pushIf)

section \<open>Benchmark engine\<close>

lemma a_username_analyzeCreator [simp]: "a_username (analyzeCreator T L c) = username c"
  by (simp add: analyzeCreator_def Let_def)

lemma usernames_rankedAnalyses: "a_username ` set (rankedAnalyses cs) = username ` set cs"
proof -
  have "a_username ` set (rankedAnalyses cs)
      = a_username ` set (map (analyzeCreator (followerTotal cs) (likeTotal cs)) cs)"
    by (rule set_rankedAnalyses_field) simp
  then show ?thesis by (simp add: image_image)
qed

lemma find_target:
  "\<exists>ta. find (\<lambda>c. a_username c = username t) (rankedAnalyses (t # cs)) = Some ta
        \<and> ta \<in> set (rankedAnalyses (t # cs)) \<and> a_username ta = username t"
proof -
  have "username t \<in> a_username ` set (rankedAnalyses (t # cs))"
    unfolding usernames_rankedAnalyses by simp
  then have "\<exists>x \<in> set (rankedAnalyses (t # cs)). a_username x = username t" by auto
  then obtain ta where f: "find (\<lambda>c. a_username c = username t) (rankedAnalyses (t # cs)) = Some ta"
    by (cases "find (\<lambda>c. a_username c = username t) (rankedAnalyses (t # cs))")
       (auto simp: find_None_iff)
  then have "ta \<in> set (rankedAnalyses (t # cs)) \<and> a_username ta = username t"
    by (auto simp: find_Some_iff)
  with f show ?thesis by blast
qed

lemma benchmarkCreator_ok:
  assumes "cs \<noteq> []"
  shows "\<exists>L leader rest ta.
      analyzeCompetitiveLandscape (Some t # map Some cs) = Inr (Landscape L)
    \<and> l_competitors L = rankedAnalyses (t # cs)
    \<and> l_competitors L = leader # rest
    \<and> find (\<lambda>c. a_username c = username t) (l_competitors L) = Some ta
    \<and> ta \<in> set (l_competitors L) \<and> a_username ta = username t
    \<and> benchmarkCreator (Some t) cs = Inr (benchmarkResult t cs L ta leader)"
proof -
  have len: "2 \<le> length (t # cs)" using assms by (cases cs) auto
  obtain L where L: "analyzeCompetitiveLandscape (map Some (t # cs)) = Inr (Landscape L)"
    and comp: "l_competitors L = rankedAnalyses (t # cs)"
    using analyzeCompetitiveLandscape_ok[OF len] by blast
  obtain ta where ta: "find (\<lambda>c. a_username c = username t) (rankedAnalyses (t # cs)) = Some ta"
    "ta \<in> set (rankedAnalyses (t # cs))" "a_username ta = username t"
    using find_target by blast
  have "length (rankedAnalyses (t # cs)) = Suc (length cs)" by simp
  then obtain leader rest where lr: "rankedAnalyses (t # cs) = leader # rest"
    by (cases "rankedAnalyses (t # cs)") auto
  have "benchmarkCreator (Some t) cs = Inr (benchmarkResult t cs L ta leader)"
    using L ta(1) lr by (simp add: benchmarkCreator_def comp)
  then show ?thesis using L comp ta lr by auto
qed

text \<open>
  Claim C1, as stated, fails: with a target and no competitors the failure is the
  \<open>TypeError\<close> of reading \<^verbatim>\<open>find\<close> from the missing \<^verbatim>\<open>competitors\<close> of the
  error object, not a condition that the function raises for invalid input, such as the
  error that the entry point raises for the same condition.
\<close>

theorem benchmark_invalid_input_counterexample:
  "benchmarkCreator (Some (profile ''x'' (Some 100000) None None)) [] = Inl TypeError \<and>
   benchmarkCreator (Some (profile ''x'' (Some 100000) None None)) []
     \<noteq> Inl (Error ''No competitor profiles found'')"
  by (simp add: benchmarkCreator_def analyzeCompetitiveLandscape_def)

text \<open>
  Claim C1, amended. Whenever the target is absent or there is no competitor,
  \<^verbatim>\<open>benchmarkCreator\<close> fails with a \<open>TypeError\<close> and returns no benchmark.
\<close>

theorem benchmark_invalid_input:
  "target' = None \<or> competitors = [] \<Longrightarrow> benchmarkCreator target' competitors = Inl TypeError"
proof (cases "competitors = []")
  case True
  then show ?thesis by (simp add: benchmarkCreator_def analyzeCompetitiveLandscape_def)
next
  case False
  assume "target' = None \<or> competitors = []"
  with False have "target' = None" by simp
  then show ?thesis
    using False by (cases competitors) (auto simp: benchmarkCreator_def analyzeCompetitiveLandscape_def)
qed

theorem benchmark_invalid_input_witness:
  "benchmarkCreator None [profile ''c'' (Some 5) None None] = Inl TypeError"
  using benchmark_invalid_input[of None "[profile ''c'' (Some 5) None None]"] by simp

lemma benchmarkResult_gapToLeader:
  "gapToLeader (benchmarkResult t cs L ta leader) =
     (if a_username leader = username t then None
      else Some \<lparr> gap_followers = m_followers (metrics leader) - m_followers (metrics ta),
                  gap_percentage =
                    js_round (js_mul (js_div (m_followers (metrics leader) - m_followers (metrics ta))
                                             (m_followers (metrics leader))) 100),
                  gap_disclaimer = ''Gap based on current follower count - actual market reach differs based on engagement and algorithm'' \<rparr>)"
  by (simp add: benchmarkResult_def Let_def)

lemma benchmarkResult_isLeader:
  "isLeader (benchmarkResult t cs L ta leader) = (a_username leader = username t)"
  by (simp add: benchmarkResult_def Let_def)

lemma benchmarkResult_target: "target (benchmarkResult t cs L ta leader) = ta"
  by (simp add: benchmarkResult_def Let_def)

lemma benchmarkResult_recommendations:
  "recommendations (benchmarkResult t cs L ta leader) =
     generateBenchmarkRecommendations ta
       (filter (\<lambda>c. a_username c \<noteq> username t) (l_competitors L)) leader"
  by (simp add: benchmarkResult_def Let_def)

section \<open>What the entry point passes to the benchmark\<close>

text \<open>
  When the selection of \<^verbatim>\<open>main.js\<close> succeeds there is at least one competitor, the
  target's username is the requested one up to case, and no competitor's username equals
  the target's up to case; otherwise it fails with an explicit error.
\<close>

lemma selectBenchmarkInput_ok:
  assumes "selectBenchmarkInput u ps = Inr (t, cs)"
  shows "cs \<noteq> [] \<and> toLowerCase (username t) = toLowerCase u
       \<and> (\<forall>c \<in> set cs. toLowerCase (username c) \<noteq> toLowerCase (username t))"
proof -
  from assms have f: "find (\<lambda>p. toLowerCase (username p) = toLowerCase u) ps = Some t"
    and c: "cs = filter (\<lambda>p. toLowerCase (username p) \<noteq> toLowerCase u) ps" and ne: "cs \<noteq> []"
    by (auto simp: selectBenchmarkInput_def Let_def split: option.splits if_splits)
  from f have t: "toLowerCase (username t) = toLowerCase u" by (auto simp: find_Some_iff)
  from c have "\<forall>c \<in> set cs. toLowerCase (username c) \<noteq> toLowerCase u" by simp
  with t ne show ?thesis by simp
qed

lemma selectBenchmarkInput_error:
  "selectBenchmarkInput u ps = Inl e \<Longrightarrow> \<exists>msg. e = Error msg"
  by (auto simp: selectBenchmarkInput_def Let_def split: option.splits if_splits)

section \<open>Leader and gap to the leader\<close>




lemma ranked_example_gap:
  "map (\<lambda>c. (a_username c, m_followers (metrics c)))
       (rankedAnalyses [profile ''t'' (Some (- 5)) None None, profile ''c'' (Some 0) None None])
     = [(''c'', 0), (''t'', - 5)]"
  by (simp add: rankedAnalyses_def addRankings_def sortDesc_def analyzeCreator_def profile_def
        orElse_def Let_def)

text \<open>
  Claim C7, evaluated where it fails. The target has -5 followers (a value that the
  validation flags and the analysis accepts) and the only competitor has 0, so the leader
  has 0 followers and the target is not the leader. The gap is 5 followers and the
  percentage is the division of 5 by 0, plus infinity, not 0: the percentage has no guard
  for a leader without followers, unlike the two market shares.
\<close>

theorem gap_percentage_zero_leader:
  "m_followers (metrics (hd (rankedAnalyses
      [profile ''t'' (Some (- 5)) None None, profile ''c'' (Some 0) None None]))) = 0 \<and>
   \<not> isl (benchmarkCreator (Some (profile ''t'' (Some (- 5)) None None))
             [profile ''c'' (Some 0) None None]) \<and>
   \<not> isLeader (projr (benchmarkCreator (Some (profile ''t'' (Some (- 5)) None None))
             [profile ''c'' (Some 0) None None])) \<and>
   map_option gap_followers (gapToLeader (projr (benchmarkCreator
             (Some (profile ''t'' (Some (- 5)) None None))
             [profile ''c'' (Some 0) None None]))) = Some 5 \<and>
   map_option gap_percentage (gapToLeader (projr (benchmarkCreator
             (Some (profile ''t'' (Some (- 5)) None None))
             [profile ''c'' (Some 0) None None]))) = Some PosInfinity"
proof -
  let ?t = "profile ''t'' (Some (- 5)) None None"
  let ?cs = "[profile ''c'' (Some 0) None None]"
  let ?p = "\<lambda>c. (a_username c, m_followers (metrics c))"
  obtain L leader rest ta where
    c: "l_competitors L = rankedAnalyses (?t # ?cs)"
    and lr: "l_competitors L = leader # rest"
    and m: "ta \<in> set (l_competitors L)" and u: "a_username ta = username ?t"
    and r: "benchmarkCreator (Some ?t) ?cs = Inr (benchmarkResult ?t ?cs L ta leader)"
    using benchmarkCreator_ok[of ?cs ?t] by blast
  have ps: "map ?p (leader # rest) = [(''c'', 0), (''t'', - 5)]"
    using ranked_example_gap c lr by simp
  then have l: "a_username leader = ''c''" "m_followers (metrics leader) = 0" by simp_all
  have un: "username ?t = ''t''" by (simp add: profile_def)
  from m lr have "ta \<in> set (leader # rest)" by simp
  then have "?p ta \<in> ?p ` set (leader # rest)" by (rule imageI)
  then have "?p ta \<in> set (map ?p (leader # rest))" by (simp only: set_map)
  then have "?p ta \<in> {(''c'', 0), (''t'', - 5)}" unfolding ps by simp
  with u un have tf: "m_followers (metrics ta) = - 5" by auto
  have h: "hd (rankedAnalyses (?t # ?cs)) = leader" using c lr by (metis list.sel(1))
  show ?thesis
    unfolding r h
    by (simp add: benchmarkResult_gapToLeader benchmarkResult_isLeader l un tf js_div_def)
qed

section \<open>Growth recommendation of a benchmark\<close>

text \<open>
  Claim C8. For every call with a target and at least one competitor, the
  recommendations of the benchmark hold no Growth recommendation when the target is the
  leader. Otherwise they hold exactly one: with \<open>followerGap\<close> the leader's followers
  minus the target's and \<open>growthDelta\<close> the target's monthly growth minus the
  leader's, it is the low-priority overtake recommendation with
  \<open>min (round (followerGap / growthDelta)) 24\<close> months when \<open>growthDelta > 100\<close>,
  and in every other case the high-priority recommendation that states
  \<open>round (followerGap / 1000000 * 10) / 10\<close>, the gap in millions.
\<close>

theorem growth_rule:
  assumes "cs \<noteq> []"
  shows "\<exists>r L leader rest.
      benchmarkCreator (Some t) cs = Inr r
    \<and> analyzeCompetitiveLandscape (Some t # map Some cs) = Inr (Landscape L)
    \<and> l_competitors L = leader # rest
    \<and> (isLeader r \<longleftrightarrow> a_username leader = username t)
    \<and> filter (\<lambda>x. category x = ''Growth'') (recommendations r) =
        (if isLeader r then []
         else if 100 < followersPerMonth (growth (target r)) - followersPerMonth (growth leader)
         then
           [\<lparr> category = ''Growth'', priority = ''low'',
              action = [Lit ''Maintain growth velocity - on track to overtake leader in ~'',
                        NumStr (Fin (min (Math_round
                          ((m_followers (metrics leader) - m_followers (metrics (target r)))
                             / (followersPerMonth (growth (target r))
                                  - followersPerMonth (growth leader)))) 24)),
                        Lit '' months''],
              impact = [Lit ''Market leadership potential (if growth trend continues)''],
              disclaimer = Some ''Assumes linear growth - algorithm changes or viral moments can alter timeline'' \<rparr>]
         else
           [\<lparr> category = ''Growth'', priority = ''high'',
              action = [Lit ''Increase growth rate to close '',
                        NumStr (Fin (Math_round
                          ((m_followers (metrics leader) - m_followers (metrics (target r)))
                             / 1000000 * 10) / 10)),
                        Lit ''M follower gap with leader''],
              impact = [Lit ''Currently '',
                        ToLocale (Fin (followersPerMonth (growth (target r)))),
                        Lit '' followers/month (leader: '',
                        ToLocale (Fin (followersPerMonth (growth leader))), Lit '')''],
              disclaimer = Some ''Growth projections assume linear extrapolation - platform dynamics may vary significantly'' \<rparr>])"
proof -
  obtain L leader rest ta where
    L: "analyzeCompetitiveLandscape (Some t # map Some cs) = Inr (Landscape L)"
    and lr: "l_competitors L = leader # rest"
    and u: "a_username ta = username t"
    and r: "benchmarkCreator (Some t) cs = Inr (benchmarkResult t cs L ta leader)"
    using benchmarkCreator_ok[OF assms, of t] by blast
  have g: "filter (\<lambda>x. category x = ''Growth'')
             (recommendations (benchmarkResult t cs L ta leader))
         = filter (\<lambda>x. category x = ''Growth'')
             (generateBenchmarkRecommendations ta
                (filter (\<lambda>c. a_username c \<noteq> username t) (l_competitors L)) leader)"
    by (simp only: benchmarkResult_recommendations)
  show ?thesis
    apply (intro exI[of _ "benchmarkResult t cs L ta leader"] exI[of _ L] exI[of _ leader]
       exI[of _ rest])
    apply (simp only: g generator_growth_rule)
    apply (simp add: r L lr benchmarkResult_isLeader benchmarkResult_target u eq_commute[of "username t"])
    done
qed

theorem growth_rule_witness:
  "[profile ''a'' (Some 10) None None] \<noteq> [] \<and>
   (\<exists>r. benchmarkCreator (Some (profile ''b'' (Some 20) None None))
           [profile ''a'' (Some 10) None None] = Inr r
      \<and> (isLeader r \<longrightarrow> filter (\<lambda>x. category x = ''Growth'') (recommendations r) = []))"
proof -
  have ne: "[profile ''a'' (Some 10) None None] \<noteq> []" by simp
  from growth_rule[OF ne, of "profile ''b'' (Some 20) None None"]
  obtain r where
    "benchmarkCreator (Some (profile ''b'' (Some 20) None None))
       [profile ''a'' (Some 10) None None] = Inr r"
    "isLeader r \<longrightarrow> filter (\<lambda>x. category x = ''Growth'') (recommendations r) = []"
    by (elim exE conjE) (rule that, assumption, simp)
  then show ?thesis using ne by blast
qed

section \<open>Rounding to binary64\<close>

lemma roundTiesToEven_cases:
  "roundTiesToEven y = \<lfloor>y\<rfloor> \<and> y - of_int \<lfloor>y\<rfloor> \<le> 1 / 2
   \<or> roundTiesToEven y = \<lfloor>y\<rfloor> + 1 \<and> 1 / 2 \<le> y - of_int \<lfloor>y\<rfloor>"
  unfolding roundTiesToEven_def Let_def by (simp only: split: if_split) (simp add: not_less)

lemma roundTiesToEven_close: "\<bar>of_int (roundTiesToEven y) - y\<bar> \<le> 1 / 2"
proof -
  have b: "of_int \<lfloor>y\<rfloor> \<le> y" "y < of_int \<lfloor>y\<rfloor> + 1" by linarith+
  from roundTiesToEven_cases[of y] show ?thesis
  proof
    assume a: "roundTiesToEven y = \<lfloor>y\<rfloor> \<and> y - of_int \<lfloor>y\<rfloor> \<le> 1 / 2"
    then have "of_int (roundTiesToEven y) - y = of_int \<lfloor>y\<rfloor> - y" by simp
    with a b show ?thesis by linarith
  next
    assume a: "roundTiesToEven y = \<lfloor>y\<rfloor> + 1 \<and> 1 / 2 \<le> y - of_int \<lfloor>y\<rfloor>"
    then have "of_int (roundTiesToEven y) - y = of_int \<lfloor>y\<rfloor> + 1 - y" by simp
    with a b show ?thesis by linarith
  qed
qed

lemma roundTiesToEven_nonneg:
  assumes "0 \<le> y"
  shows "0 \<le> roundTiesToEven y"
proof -
  have "0 \<le> \<lfloor>y\<rfloor>" using assms by simp
  with roundTiesToEven_cases[of y] show ?thesis by linarith
qed

lemma roundTiesToEven_le_int:
  assumes "y \<le> of_int z"
  shows "roundTiesToEven y \<le> z"
proof -
  have f: "\<lfloor>y\<rfloor> \<le> z" using assms by (simp add: floor_le_iff)
  from roundTiesToEven_cases[of y] show ?thesis
  proof
    assume "roundTiesToEven y = \<lfloor>y\<rfloor> \<and> y - of_int \<lfloor>y\<rfloor> \<le> 1 / 2"
    with f show ?thesis by simp
  next
    assume a: "roundTiesToEven y = \<lfloor>y\<rfloor> + 1 \<and> 1 / 2 \<le> y - of_int \<lfloor>y\<rfloor>"
    then have "(of_int \<lfloor>y\<rfloor> :: rat) < y" by linarith
    with assms have "(of_int \<lfloor>y\<rfloor> :: rat) < of_int z" by linarith
    then have "\<lfloor>y\<rfloor> < z" by (simp only: of_int_less_iff)
    with a show ?thesis by simp
  qed
qed

lemma bitlen_ge1: "0 < x \<Longrightarrow> 1 \<le> bitlen x"
  using compute_bitlen[of x] bitlen_nonneg[of "x div 2"] by simp

lemma pow2_bitlen:
  assumes "0 < x"
  shows "(2::rat) powi (bitlen x - 1) \<le> of_int x \<and> of_int x < (2::rat) powi bitlen x"
proof -
  have b: "1 \<le> bitlen x" by (rule bitlen_ge1[OF assms])
  have "2 ^ nat (bitlen x - 1) \<le> x \<and> x < 2 ^ nat (bitlen x)" by (rule bitlen_bounds[OF assms])
  then have "(of_int (2 ^ nat (bitlen x - 1)) :: rat) \<le> of_int x"
    and "(of_int x :: rat) < of_int (2 ^ nat (bitlen x))"
    by (simp_all only: of_int_le_iff of_int_less_iff)
  moreover have "(2::rat) powi (bitlen x - 1) = of_int (2 ^ nat (bitlen x - 1))"
    using b by (simp add: power_int_def)
  moreover have "(2::rat) powi bitlen x = of_int (2 ^ nat (bitlen x))"
    using b by (simp add: power_int_def)
  ultimately show ?thesis by simp
qed

lemma exponentOf_bounds:
  assumes "0 < x"
  shows "2 powi exponentOf x \<le> x \<and> x < 2 powi (exponentOf x + 1)"
proof -
  obtain p q where pq: "quotient_of x = (p, q)" by (cases "quotient_of x")
  then have q: "0 < q" by (rule quotient_of_denom_pos)
  have x: "x = of_int p / of_int q" using pq by (rule quotient_of_div)
  with assms q have p: "0 < p" by (simp add: zero_less_divide_iff)
  define bp where "bp = bitlen p"
  define bq where "bq = bitlen q"
  have pl: "(2::rat) powi (bp - 1) \<le> of_int p" and pu: "of_int p < (2::rat) powi bp"
    using pow2_bitlen[OF p] by (simp_all add: bp_def)
  have ql: "(2::rat) powi (bq - 1) \<le> of_int q" and qu: "of_int q < (2::rat) powi bq"
    using pow2_bitlen[OF q] by (simp_all add: bq_def)
  have qpos: "(0::rat) < of_int q" using q by simp
  have lower: "(2::rat) powi (bp - bq - 1) \<le> x"
  proof -
    have "(2::rat) powi (bp - bq - 1) * 2 powi bq = 2 powi (bp - 1)"
      by (simp flip: power_int_add)
    moreover have "(2::rat) powi (bp - bq - 1) * of_int q \<le> 2 powi (bp - bq - 1) * 2 powi bq"
      using qu by (intro mult_left_mono) auto
    ultimately have "(2::rat) powi (bp - bq - 1) * of_int q \<le> of_int p" using pl by linarith
    then show ?thesis unfolding x using qpos by (simp add: le_divide_eq)
  qed
  have upper: "x < (2::rat) powi (bp - bq + 1)"
  proof -
    have "(2::rat) powi (bp - bq + 1) * 2 powi (bq - 1) = 2 powi bp"
      by (simp flip: power_int_add)
    moreover have "(2::rat) powi (bp - bq + 1) * 2 powi (bq - 1) \<le> 2 powi (bp - bq + 1) * of_int q"
      using ql by (intro mult_left_mono) auto
    ultimately have "of_int p < (2::rat) powi (bp - bq + 1) * of_int q" using pu by linarith
    then show ?thesis unfolding x using qpos by (simp add: divide_less_eq)
  qed
  have e: "exponentOf x = (if 2 powi (bp - bq) \<le> x then bp - bq else bp - bq - 1)"
    by (simp add: exponentOf_def pq bp_def bq_def Let_def)
  show ?thesis
  proof (cases "(2::rat) powi (bp - bq) \<le> x")
    case True
    then show ?thesis using upper by (simp add: e)
  next
    case False
    then show ?thesis using lower by (simp add: e)
  qed
qed

lemma toDouble_pos_unfold:
  assumes "0 < x"
  shows "toDouble x = of_int (roundTiesToEven (x / 2 powi (exponentOf x - 52))) * 2 powi (exponentOf x - 52)"
  using assms by (simp add: toDouble_def Let_def)

lemma toDouble_close:
  assumes "0 < x"
  shows "\<bar>toDouble x - x\<bar> \<le> x / 2 powi 53"
proof -
  define e where "e = exponentOf x"
  define u :: rat where "u = 2 powi (e - 52)"
  define n where "n = roundTiesToEven (x / u)"
  have upos: "0 < u" by (simp add: u_def)
  have t: "toDouble x = of_int n * u"
    unfolding n_def u_def e_def by (rule toDouble_pos_unfold[OF assms])
  have le: "2 powi e \<le> x" unfolding e_def using exponentOf_bounds[OF assms] by simp
  have "\<bar>of_int n - x / u\<bar> \<le> 1 / 2" unfolding n_def by (rule roundTiesToEven_close)
  then have "\<bar>of_int n - x / u\<bar> * u \<le> 1 / 2 * u"
    using upos by (intro mult_right_mono) auto
  moreover have "\<bar>of_int n - x / u\<bar> * u = \<bar>of_int n * u - x\<bar>"
  proof -
    have "\<bar>of_int n - x / u\<bar> * u = \<bar>(of_int n - x / u) * u\<bar>" using upos by (simp add: abs_mult)
    also have "(of_int n - x / u) * u = of_int n * u - x" using upos by (simp add: algebra_simps)
    finally show ?thesis .
  qed
  ultimately have a: "\<bar>toDouble x - x\<bar> \<le> u / 2" by (simp add: t)
  have "u = 2 powi e / 2 powi 52" by (simp add: u_def power_int_diff)
  then have "2 powi e / 2 powi 53 = u / 2" by simp
  then have "u / 2 \<le> x / 2 powi 53" using le by (simp add: divide_right_mono)
  with a show ?thesis by linarith
qed

lemma toDouble_range:
  assumes "0 \<le> x" "x \<le> of_int c" "c < 2 ^ 53"
  shows "0 \<le> toDouble x \<and> toDouble x \<le> of_int c"
proof (cases "x = 0")
  case True
  then show ?thesis using assms by (simp add: toDouble_def)
next
  case False
  with assms have pos: "0 < x" by simp
  define e where "e = exponentOf x"
  define u :: rat where "u = 2 powi (e - 52)"
  define n where "n = roundTiesToEven (x / u)"
  have upos: "0 < u" by (simp add: u_def)
  have t: "toDouble x = of_int n * u"
    unfolding n_def u_def e_def by (rule toDouble_pos_unfold[OF pos])
  have "0 \<le> x / u" using pos upos by simp
  then have "0 \<le> n" unfolding n_def by (rule roundTiesToEven_nonneg)
  then have lo: "0 \<le> toDouble x" using upos by (simp add: t)
  have le: "2 powi e \<le> x" unfolding e_def using exponentOf_bounds[OF pos] by simp
  have "(of_int c :: rat) < of_int (2 ^ 53)" using assms(3) by (simp only: of_int_less_iff)
  then have "(of_int c :: rat) < 2 powi 53" by simp
  with le assms(2) have lt: "(2::rat) powi e < 2 powi 53" by linarith
  have "e < 53"
  proof (rule ccontr)
    assume "\<not> e < 53"
    then have "53 \<le> e" by simp
    then have "(2::rat) powi 53 \<le> 2 powi e" by (intro power_int_increasing) auto
    with lt show False by linarith
  qed
  define k where "k = nat (52 - e)"
  have "(2::rat) ^ k = 2 powi (52 - e)" using \<open>e < 53\<close> by (simp add: k_def power_int_def)
  then have "u * 2 ^ k = 2 powi (e - 52) * 2 powi (52 - e)" by (simp add: u_def)
  also have "\<dots> = 1" by (simp flip: power_int_add)
  finally have uk: "u * 2 ^ k = 1" .
  then have "x / u = x * 2 ^ k" using upos by (simp add: field_simps)
  also have "\<dots> \<le> of_int c * 2 ^ k" using assms(2) by (simp add: mult_right_mono)
  also have "\<dots> = of_int (c * 2 ^ k)" by simp
  finally have "n \<le> c * 2 ^ k" unfolding n_def by (rule roundTiesToEven_le_int)
  then have "(of_int n :: rat) \<le> of_int (c * 2 ^ k)" by (simp only: of_int_le_iff)
  then have "of_int n * u \<le> of_int (c * 2 ^ k) * u" using upos by (simp add: mult_right_mono)
  also have "\<dots> = of_int c * (u * 2 ^ k)" by simp
  also have "\<dots> = of_int c" by (simp add: uk)
  finally have "toDouble x \<le> of_int c" by (simp add: t)
  with lo show ?thesis by simp
qed

section \<open>Percentiles\<close>

lemma findIndexFrom_takeWhile:
  "\<exists>x \<in> set xs. P x \<Longrightarrow>
     findIndexFrom i P xs = int (i + length (takeWhile (\<lambda>x. \<not> P x) xs))
     \<and> length (takeWhile (\<lambda>x. \<not> P x) xs) < length xs"
proof (induction xs arbitrary: i)
  case Nil
  then show ?case by simp
next
  case (Cons a xs)
  show ?case
  proof (cases "P a")
    case True
    then show ?thesis by simp
  next
    case False
    with Cons.prems have "\<exists>x \<in> set xs. P x" by auto
    from Cons.IH[OF this, of "Suc i"] False show ?thesis by simp
  qed
qed

lemma findIndex_rank:
  assumes "\<exists>x \<in> set xs. P x"
  shows "\<exists>k. 1 \<le> k \<and> k \<le> length xs \<and> k = Suc (length (takeWhile (\<lambda>x. \<not> P x) xs))
           \<and> (of_int (findIndex P xs) + 1 :: rat) = of_nat k"
  using findIndexFrom_takeWhile[OF assms, of 0] by (simp add: findIndex_def)

lemma toDouble_0 [simp]: "toDouble 0 = 0"
  by (simp add: toDouble_def)

lemma toDouble_1: "toDouble 1 = 1"
  by code_simp

lemma toDouble_100: "toDouble 100 = 100"
  by code_simp

lemma toDouble_close': "0 < x \<Longrightarrow> \<bar>toDouble x - x\<bar> \<le> x / 9007199254740992"
  using toDouble_close[of x] by simp

lemma percentileOf_bounds:
  assumes "1 \<le> k" "k \<le> N"
  shows "0 \<le> percentileOf (of_nat k) (of_nat N) \<and> percentileOf (of_nat k) (of_nat N) \<le> 100"
proof -
  define q :: rat where "q = (of_nat k - 1) / of_nat N"
  have N: "(0::rat) < of_nat N" using assms by simp
  have q0: "0 \<le> q" unfolding q_def using assms N by simp
  have q1: "q \<le> of_int 1" unfolding q_def using assms N by (simp add: divide_le_eq)
  have a: "0 \<le> toDouble q \<and> toDouble q \<le> of_int 1"
    by (rule toDouble_range[OF q0 q1]) simp
  define d where "d = 1 - toDouble q"
  have d0: "0 \<le> d" and d1: "d \<le> of_int 1" using a by (simp_all add: d_def)
  have b: "0 \<le> toDouble d \<and> toDouble d \<le> of_int 1"
    by (rule toDouble_range[OF d0 d1]) simp
  define m where "m = toDouble d * 100"
  have m0: "0 \<le> m" and m1: "m \<le> of_int 100" using b by (simp_all add: m_def)
  have c: "0 \<le> toDouble m \<and> toDouble m \<le> of_int 100"
    by (rule toDouble_range[OF m0 m1]) simp
  have "(0::int) \<le> \<lfloor>toDouble m + 1 / 2\<rfloor>" using c by (simp add: zero_le_floor)
  moreover have "\<lfloor>toDouble m + 1 / 2\<rfloor> \<le> (100::int)" using c by (simp add: floor_le_iff)
  ultimately have "(0::rat) \<le> of_int \<lfloor>toDouble m + 1 / 2\<rfloor>"
    and "(of_int \<lfloor>toDouble m + 1 / 2\<rfloor> :: rat) \<le> of_int 100"
    by (simp_all only: of_int_0_le_iff of_int_le_iff)
  then show ?thesis
    unfolding percentileOf_def Math_round_def m_def d_def q_def by simp
qed

lemma Math_round_100: "Math_round 100 = 100"
  by code_simp

lemma percentileOf_first: "percentileOf 1 N = 100"
  by (simp add: percentileOf_def toDouble_1 toDouble_100 Math_round_100)

lemma tie_sizes:
  "\<forall>N \<in> set [2..<201]. (200 + N) mod (2 * N) = 0 \<longrightarrow> N = 8 \<or> N = 40 \<or> N = 200"
  by code_simp

lemma percentileOf_last_ties:
  "percentileOf 8 8 = Math_round (100 / 8) \<and> percentileOf 40 40 = Math_round (100 / 40)
   \<and> percentileOf 200 200 = Math_round (100 / 200)"
  by code_simp

lemma percentileOf_last:
  assumes "2 \<le> N" "N < 2 ^ 32"
  shows "percentileOf (of_nat N) (of_nat N) = Math_round (100 / of_nat N)"
proof -
  define n :: rat where "n = of_nat N"
  have n2: "2 \<le> n" using assms(1) by (simp add: n_def)
  have "(of_nat N :: rat) < of_nat (2 ^ 32)" using assms(2) by (simp only: of_nat_less_iff)
  then have nu: "n < 4294967296" by (simp add: n_def)
  define t where "t = 100 / n + 1 / 2"
  define K where "K = \<lfloor>t\<rfloor>"
  have K: "of_int K \<le> t" "t < of_int K + 1" unfolding K_def by linarith+
  have t2n: "t * (2 * n) = of_int (200 + int N)"
    using n2 by (simp add: t_def n_def field_simps)
  show ?thesis
  proof (cases "t = of_int K")
    case True
    have "of_int (200 + int N) = (of_int (K * (2 * int N)) :: rat)"
      using t2n True by (simp add: n_def)
    then have eq: "200 + int N = K * (2 * int N)" by (simp only: of_int_eq_iff)
    have "0 < K"
    proof (rule ccontr)
      assume "\<not> 0 < K"
      then have "K * (2 * int N) \<le> 0" by (simp add: mult_le_0_iff)
      with eq show False by simp
    qed
    then have "1 * (2 * int N) \<le> K * (2 * int N)" by (intro mult_right_mono) auto
    with eq have "N \<le> 200" by simp
    have "(200 + int N) mod (2 * int N) = 0" using eq by simp
    then have "int ((200 + N) mod (2 * N)) = 0" by (simp add: zmod_int)
    then have md: "(200 + N) mod (2 * N) = 0" by simp
    have mem: "N \<in> set [2..<201]" unfolding set_upt using assms(1) \<open>N \<le> 200\<close> by simp
    have "N = 8 \<or> N = 40 \<or> N = 200" by (rule tie_sizes[rule_format, OF mem md])
    then show ?thesis using percentileOf_last_ties by auto
  next
    case False
    with K have Klt: "of_int K < t" by simp
    have npos: "0 < 2 * n" using n2 by simp
    have kn: "of_int K * (2 * n) = of_int (K * (2 * int N))" by (simp add: n_def)
    have kn1: "(of_int K + 1) * (2 * n) = of_int ((K + 1) * (2 * int N))" by (simp add: n_def)
    have "of_int K * (2 * n) < t * (2 * n)" by (rule mult_strict_right_mono[OF Klt npos])
    then have "(of_int (K * (2 * int N)) :: rat) < of_int (200 + int N)" unfolding t2n kn .
    then have "K * (2 * int N) < 200 + int N" by (simp only: of_int_less_iff)
    then have "K * (2 * int N) + 1 \<le> 200 + int N" by simp
    then have a1: "(of_int (K * (2 * int N) + 1) :: rat) \<le> of_int (200 + int N)"
      by (simp only: of_int_le_iff)
    have a2: "(of_int (K * (2 * int N) + 1) :: rat) = of_int K * (2 * n) + 1"
      by (simp add: n_def)
    from a1 have "of_int K * (2 * n) + 1 \<le> of_int (200 + int N)" by (simp only: a2)
    then have lo1: "of_int K * (2 * n) + 1 \<le> t * (2 * n)" by (simp only: t2n)
    have "t * (2 * n) < (of_int K + 1) * (2 * n)" by (rule mult_strict_right_mono[OF K(2) npos])
    then have "(of_int (200 + int N) :: rat) < of_int ((K + 1) * (2 * int N))" unfolding t2n kn1 .
    then have "200 + int N < (K + 1) * (2 * int N)" by (simp only: of_int_less_iff)
    then have "200 + int N + 1 \<le> (K + 1) * (2 * int N)" by simp
    then have b1: "(of_int (200 + int N + 1) :: rat) \<le> of_int ((K + 1) * (2 * int N))"
      by (simp only: of_int_le_iff)
    have b2: "(of_int (200 + int N + 1) :: rat) = of_int (200 + int N) + 1" by simp
    from b1 have "of_int (200 + int N) + 1 \<le> (of_int ((K + 1) * (2 * int N)) :: rat)"
      by (simp only: b2)
    then have hi1: "t * (2 * n) + 1 \<le> (of_int K + 1) * (2 * n)" by (simp only: t2n kn1)
    define g where "g = 1 / (2 * n)"
    have gpos: "1 / 8589934592 < g" unfolding g_def using nu n2 by (simp add: field_simps)
    have g1: "g * (2 * n) = 1" unfolding g_def using npos by simp
    have "(of_int K + g) * (2 * n) \<le> t * (2 * n)" using lo1 g1 by (simp add: algebra_simps)
    then have lo: "of_int K + g \<le> t" using npos by (simp only: mult_le_cancel_right_pos)
    have "(t + g) * (2 * n) \<le> (of_int K + 1) * (2 * n)" using hi1 g1 by (simp add: algebra_simps)
    then have hi: "t + g \<le> of_int K + 1" using npos by (simp only: mult_le_cancel_right_pos)
    define q where "q = (n - 1) / n"
    have q0: "0 < q" and q1: "q < 1" unfolding q_def using n2 by (simp_all add: field_simps)
    have qe: "\<bar>toDouble q - q\<bar> \<le> q / 9007199254740992" by (rule toDouble_close'[OF q0])
    define d where "d = 1 - toDouble q"
    have dn: "d - 1 / n = q - toDouble q" unfolding d_def q_def using n2 by (simp add: field_simps)
    have n_inv: "1 / 4294967296 < 1 / n" "1 / n \<le> 1 / 2" using n2 nu by (simp_all add: field_simps)
    have dpos: "0 < d" using dn qe q1 n_inv by linarith
    have dle: "d \<le> 1" using dn qe q1 q0 n_inv by linarith
    have de: "\<bar>toDouble d - d\<bar> \<le> d / 9007199254740992" by (rule toDouble_close'[OF dpos])
    define m where "m = toDouble d * 100"
    have mpos: "0 < m" using de dpos unfolding m_def by linarith
    have mle: "m \<le> 200" using de dle dpos unfolding m_def by linarith
    have me: "\<bar>toDouble m - m\<bar> \<le> m / 9007199254740992" by (rule toDouble_close'[OF mpos])
    have "\<bar>toDouble m - 100 / n\<bar> \<le> 400 / 9007199254740992"
    proof -
      have "100 / n = 100 * (1 / n)" by simp
      then show ?thesis using me mle mpos de dle dpos dn qe q1 q0 unfolding m_def by linarith
    qed
    then have "\<bar>(toDouble m + 1 / 2) - t\<bar> \<le> 400 / 9007199254740992" by (simp add: t_def)
    with lo hi gpos have "of_int K \<le> toDouble m + 1 / 2" "toDouble m + 1 / 2 < of_int K + 1"
      by linarith+
    then have "\<lfloor>toDouble m + 1 / 2\<rfloor> = K" by (rule floor_unique)
    moreover have "(n - 1) / n = (of_nat N - 1) / of_nat N" by (simp add: n_def)
    ultimately show ?thesis
      unfolding percentileOf_def Math_round_def
      by (simp add: m_def d_def q_def K_def t_def n_def)
  qed
qed

lemma entryOk_intro:
  assumes "1 \<le> k" "k \<le> N" "2 \<le> N"
  shows "entryOk N \<lparr> b_rank = of_nat k, b_percentile = percentileOf (of_nat k) (of_nat N),
                      b_total = of_nat N,
                      b_label = getPercentileLabel (percentileOf (of_nat k) (of_nat N)) \<rparr>"
proof -
  have b: "0 \<le> percentileOf (of_nat k) (of_nat N) \<and> percentileOf (of_nat k) (of_nat N) \<le> 100"
    by (rule percentileOf_bounds[OF assms(1,2)])
  have f: "(of_nat k :: rat) = 1 \<longrightarrow> percentileOf (of_nat k) (of_nat N) = 100"
    by (simp add: percentileOf_first)
  have l: "(of_nat k :: rat) = of_nat N \<and> N < 2 ^ 32
      \<longrightarrow> percentileOf (of_nat k) (of_nat N) = Math_round (100 / of_nat N)"
    using percentileOf_last[OF assms(3)] by auto
  have d: "percentileOf (of_nat k) (of_nat N)
      = Math_round (toDouble (toDouble (1 - toDouble ((of_nat k - 1) / of_nat N)) * 100))"
    by (simp add: percentileOf_def)
  have e: "\<exists>j. 1 \<le> j \<and> j \<le> N \<and> (of_nat k :: rat) = of_nat j" using assms(1,2) by blast
  show ?thesis
    unfolding entryOk_def benchmark_entry.simps
    by (intro conjI refl b[THEN conjunct1] b[THEN conjunct2] f l d e)
qed

lemma benchmarkResult_entries:
  "bm_followers (benchmarkResult t cs L ta leader) =
     \<lparr> b_rank = rank ta, b_percentile = percentileOf (rank ta) (of_nat (Suc (length cs))),
       b_total = of_nat (Suc (length cs)),
       b_label = getPercentileLabel (percentileOf (rank ta) (of_nat (Suc (length cs)))) \<rparr>"
  "bm_engagement (benchmarkResult t cs L ta leader) =
     (let rk = of_int (findIndex (\<lambda>c. a_username c = username t)
                  (sortDesc (\<lambda>c. m_engagementRate (metrics c)) (l_competitors L))) + 1
      in \<lparr> b_rank = rk, b_percentile = percentileOf rk (of_nat (Suc (length cs))),
            b_total = of_nat (Suc (length cs)),
            b_label = getPercentileLabel (percentileOf rk (of_nat (Suc (length cs)))) \<rparr>)"
  "bm_growth (benchmarkResult t cs L ta leader) =
     (let rk = of_int (findIndex (\<lambda>c. a_username c = username t)
                  (sortDesc (\<lambda>c. followersPerMonth (growth c)) (l_competitors L))) + 1
      in \<lparr> b_rank = rk, b_percentile = percentileOf rk (of_nat (Suc (length cs))),
            b_total = of_nat (Suc (length cs)),
            b_label = getPercentileLabel (percentileOf rk (of_nat (Suc (length cs)))) \<rparr>)"
  by (simp_all add: benchmarkResult_def Let_def)

text \<open>Sorting the analyses by followers sorts the creators by followers.\<close>

lemma insort_key_map:
  "insort_key key (f x) (map f xs) = map f (insort_key (\<lambda>y. key (f y)) x xs)"
  by (induction xs) auto

lemma sortDesc_map: "sortDesc key (map f xs) = map f (sortDesc (\<lambda>y. key (f y)) xs)"
  unfolding sortDesc_def by (induction xs) (auto simp: insort_key_map)

lemma m_followers_analyzeCreator [simp]:
  "m_followers (metrics (analyzeCreator T L c)) = orElse (followers c) 0"
  by (simp add: analyzeCreator_def Let_def)

lemma ranked_usernames:
  "map a_username (rankedAnalyses cs)
     = map username (sortDesc (\<lambda>c. orElse (followers c) 0) cs)"
proof -
  have "map a_username (rankedAnalyses cs)
      = map a_username (sortDesc (\<lambda>c. m_followers (metrics c))
          (map (analyzeCreator (followerTotal cs) (likeTotal cs)) cs))"
    unfolding rankedAnalyses_def by (rule map_addRankings) simp
  then show ?thesis by (simp add: sortDesc_map comp_def)
qed

lemma mset_usernames_rankedAnalyses:
  "mset (map a_username (rankedAnalyses cs)) = mset (map username cs)"
  by (simp add: ranked_usernames)

lemma forty_sorted:
  "map username (sortDesc (\<lambda>c. orElse (followers c) 0) (fortyTarget # fortyCompetitors))
     = [''c39'', ''c38'', ''c37'', ''c36'', ''c35'', ''c34'', ''c33'', ''c32'', ''c31'',
       ''c30'', ''c29'', ''c28'', ''c27'', ''c26'', ''c25'', ''c24'', ''c23'', ''t'', ''c22'',
       ''c21'', ''c20'', ''c19'', ''c18'', ''c17'', ''c16'', ''c15'', ''c14'', ''c13'',
       ''c12'', ''c11'', ''c10'', ''c09'', ''c08'', ''c07'', ''c06'', ''c05'', ''c04'',
       ''c03'', ''c02'', ''c01'']"
  by (simp add: sortDesc_def fortyTarget_def fortyCompetitors_def profile_def orElse_def)

text \<open>
  Claim C3, as stated, fails at a tie. In the benchmark of the forty creators above the
  target has rank 18 of 40 by followers. The exact value of
  \<open>(1 - (18 - 1) / 40) * 100\<close> is 57.5, which rounds to 58; in binary64 the product is
  just below 57.5 and the benchmark reports the percentile 57.
\<close>

theorem percentile_tie_counterexample:
  "\<not> isl (benchmarkCreator (Some fortyTarget) fortyCompetitors) \<and>
   b_rank (bm_followers (projr (benchmarkCreator (Some fortyTarget) fortyCompetitors))) = 18 \<and>
   b_total (bm_followers (projr (benchmarkCreator (Some fortyTarget) fortyCompetitors))) = 40 \<and>
   b_percentile (bm_followers (projr (benchmarkCreator (Some fortyTarget) fortyCompetitors))) = 57 \<and>
   Math_round ((1 - (18 - 1) / 40) * 100) = 58"
proof -
  have ne: "fortyCompetitors \<noteq> []" by (simp add: fortyCompetitors_def)
  have len: "length fortyCompetitors = 39" by (simp add: fortyCompetitors_def)
  obtain L leader ta and rest :: "analysis list" where
    c: "l_competitors L = rankedAnalyses (fortyTarget # fortyCompetitors)"
    and m: "ta \<in> set (l_competitors L)" and u: "a_username ta = username fortyTarget"
    and r: "benchmarkCreator (Some fortyTarget) fortyCompetitors
              = Inr (benchmarkResult fortyTarget fortyCompetitors L ta leader)"
    using benchmarkCreator_ok[OF ne, of fortyTarget] by blast
  let ?xs = "rankedAnalyses (fortyTarget # fortyCompetitors)"
  have un: "username fortyTarget = ''t''" by (simp add: fortyTarget_def profile_def)
  have names: "map a_username ?xs = map username
      (sortDesc (\<lambda>c. orElse (followers c) 0) (fortyTarget # fortyCompetitors))"
    by (rule ranked_usernames)
  have ranks: "map rank ?xs = map of_nat [1..<Suc (length ?xs)]"
    unfolding rankedAnalyses_def by (simp only: rank_addRankings length_addRankings)
  from m obtain i where i: "i < length ?xs" "?xs ! i = ta"
    unfolding c by (auto simp: in_set_conv_nth)
  have l40: "length ?xs = 40" by (simp add: len)
  have "map a_username ?xs ! i = ''t''" using i u un by simp
  then have "i = 17"
    using i(1) unfolding names forty_sorted l40
    by (simp add: nth_Cons' split: if_splits)
  have li: "i < length [1..<Suc (length ?xs)]" using i(1) by (simp only: length_upt)
  have "rank ta = map rank ?xs ! i" using i by simp
  also have "\<dots> = of_nat ([1..<Suc (length ?xs)] ! i)"
    unfolding ranks by (rule nth_map[OF li])
  also have "[1..<Suc (length ?xs)] ! i = 1 + i" using i(1) by (intro nth_upt) simp
  finally have rk: "rank ta = 18" using \<open>i = 17\<close> by simp
  have p: "percentileOf 18 40 = 57" by code_simp
  have x: "Math_round ((1 - (18 - 1) / 40) * 100) = 58" by (simp add: Math_round_def)
  show ?thesis
    unfolding r using rk p x by (simp add: benchmarkResult_entries len)
qed

text \<open>
  Claim C3, amended. For every call with a target and at least one competitor, with
  \<open>N\<close> the number of creators (the target and the competitors), each of the three
  entries (followers, engagement, growth) has total \<open>N\<close>, a rank between 1 and \<open>N\<close>,
  and as percentile \<open>Math.round\<close> of the binary64 value of
  \<open>(1 - (rank - 1) / N) * 100\<close>, each operation rounded (at an exact tie this can be one
  less than the exactly rounded value). The percentile lies between 0 and 100, is 100 for
  rank 1 and, for fewer than \<open>2 ^ 32\<close> creators, is the exactly rounded \<open>100 / N\<close> for
  rank \<open>N\<close>; the label is that of the percentile. The ranked list holds the \<open>N\<close>
  usernames of the call. The followers rank is the rank of the target's entry; the
  engagement rank and the growth rank are the position, counted from 1, of the first
  entry with the target's username in a sort of all \<open>N\<close> entries by that dimension,
  which is in descending order, holds the same entries, and keeps entries of equal value
  in their order.
\<close>

theorem benchmark_percentiles:
  assumes "cs \<noteq> []"
  shows "\<exists>r L es gs.
      benchmarkCreator (Some t) cs = Inr r
    \<and> analyzeCompetitiveLandscape (Some t # map Some cs) = Inr (Landscape L)
    \<and> length (l_competitors L) = Suc (length cs)
    \<and> mset (map a_username (l_competitors L)) = mset (map username (t # cs))
    \<and> (\<forall>e \<in> set [bm_followers r, bm_engagement r, bm_growth r].
          b_total e = of_nat (Suc (length cs)) \<and>
          (\<exists>k. 1 \<le> k \<and> k \<le> Suc (length cs) \<and> b_rank e = of_nat k) \<and>
          b_percentile e =
            Math_round (toDouble (toDouble
              (1 - toDouble ((b_rank e - 1) / of_nat (Suc (length cs)))) * 100)) \<and>
          0 \<le> b_percentile e \<and> b_percentile e \<le> 100 \<and>
          (b_rank e = 1 \<longrightarrow> b_percentile e = 100) \<and>
          (b_rank e = of_nat (Suc (length cs)) \<and> Suc (length cs) < 2 ^ 32 \<longrightarrow>
             b_percentile e = Math_round (100 / of_nat (Suc (length cs)))) \<and>
          b_label e = getPercentileLabel (b_percentile e))
    \<and> b_rank (bm_followers r) = rank (target r)
    \<and> find (\<lambda>c. a_username c = username t) (l_competitors L) = Some (target r)
    \<and> es = sortDesc (\<lambda>c. m_engagementRate (metrics c)) (l_competitors L)
    \<and> sorted_wrt (\<ge>) (map (\<lambda>c. m_engagementRate (metrics c)) es)
    \<and> mset es = mset (l_competitors L)
    \<and> (\<forall>v. filter (\<lambda>c. m_engagementRate (metrics c) = v) es
             = filter (\<lambda>c. m_engagementRate (metrics c) = v) (l_competitors L))
    \<and> b_rank (bm_engagement r) =
        of_nat (Suc (length (takeWhile (\<lambda>c. a_username c \<noteq> username t) es)))
    \<and> gs = sortDesc (\<lambda>c. followersPerMonth (growth c)) (l_competitors L)
    \<and> sorted_wrt (\<ge>) (map (\<lambda>c. followersPerMonth (growth c)) gs)
    \<and> mset gs = mset (l_competitors L)
    \<and> (\<forall>v. filter (\<lambda>c. followersPerMonth (growth c) = v) gs
             = filter (\<lambda>c. followersPerMonth (growth c) = v) (l_competitors L))
    \<and> b_rank (bm_growth r) =
        of_nat (Suc (length (takeWhile (\<lambda>c. a_username c \<noteq> username t) gs)))"
proof -
  let ?N = "Suc (length cs)"
  let ?P = "\<lambda>c. a_username c = username t"
  obtain L leader ta and rest :: "analysis list" where
    L: "analyzeCompetitiveLandscape (Some t # map Some cs) = Inr (Landscape L)"
    and c: "l_competitors L = rankedAnalyses (t # cs)"
    and f: "find ?P (l_competitors L) = Some ta"
    and m: "ta \<in> set (l_competitors L)" and u: "a_username ta = username t"
    and r: "benchmarkCreator (Some t) cs = Inr (benchmarkResult t cs L ta leader)"
    using benchmarkCreator_ok[OF assms, of t] by blast
  let ?R = "benchmarkResult t cs L ta leader"
  let ?es = "sortDesc (\<lambda>c. m_engagementRate (metrics c)) (l_competitors L)"
  let ?gs = "sortDesc (\<lambda>c. followersPerMonth (growth c)) (l_competitors L)"
  have N2: "2 \<le> ?N" using assms by (cases cs) auto
  have len: "length (l_competitors L) = ?N" by (simp add: c)
  have un: "mset (map a_username (l_competitors L)) = mset (map username (t # cs))"
    unfolding c by (rule mset_usernames_rankedAnalyses)
  have "map rank (l_competitors L) = map of_nat [1..<Suc ?N]"
    unfolding c rankedAnalyses_def using rank_addRankings[of "sortDesc (\<lambda>c. m_followers (metrics c))
       (map (analyzeCreator (followerTotal (t # cs)) (likeTotal (t # cs))) (t # cs))"]
    by simp
  moreover have "rank ta \<in> set (map rank (l_competitors L))" using m by simp
  ultimately have "rank ta \<in> of_nat ` set [1..<Suc ?N]" by (simp only: set_map)
  then obtain k where "k \<in> set [1..<Suc ?N]" and k3: "rank ta = of_nat k" by blast
  then have k12: "1 \<le> k" "k \<le> ?N" by auto
  note k = k12 k3
  have e1: "entryOk ?N (bm_followers ?R)"
    unfolding benchmarkResult_entries k(3) by (rule entryOk_intro[OF k(1,2) N2])
  have ex: "\<exists>x \<in> set (sortDesc key (l_competitors L)). ?P x" for key :: "analysis \<Rightarrow> rat"
    using m u by auto
  have dim: "entryOk ?N
        (let rk = of_int (findIndex ?P (sortDesc key (l_competitors L))) + 1
         in \<lparr> b_rank = rk, b_percentile = percentileOf rk (of_nat ?N), b_total = of_nat ?N,
               b_label = getPercentileLabel (percentileOf rk (of_nat ?N)) \<rparr>)
      \<and> (of_int (findIndex ?P (sortDesc key (l_competitors L))) + 1 :: rat)
          = of_nat (Suc (length (takeWhile (\<lambda>c. a_username c \<noteq> username t)
                (sortDesc key (l_competitors L)))))" for key :: "analysis \<Rightarrow> rat"
  proof -
    obtain j where j: "1 \<le> j" "j \<le> length (sortDesc key (l_competitors L))"
      "j = Suc (length (takeWhile (\<lambda>x. \<not> ?P x) (sortDesc key (l_competitors L))))"
      "(of_int (findIndex ?P (sortDesc key (l_competitors L))) + 1 :: rat) = of_nat j"
      using findIndex_rank[OF ex[of key]] by blast
    have jN: "j \<le> ?N" using j(2) len by simp
    show ?thesis
      unfolding Let_def j(4) using entryOk_intro[OF j(1) jN N2] j(3) by simp
  qed
  have e2: "entryOk ?N (bm_engagement ?R)"
    unfolding benchmarkResult_entries using dim by blast
  have e3: "entryOk ?N (bm_growth ?R)"
    unfolding benchmarkResult_entries using dim by blast
  have "\<forall>e \<in> set [bm_followers ?R, bm_engagement ?R, bm_growth ?R]. entryOk ?N e"
    using e1 e2 e3 by simp
  note all = this[unfolded entryOk_def]
  have r2: "b_rank (bm_engagement ?R) =
        of_nat (Suc (length (takeWhile (\<lambda>c. a_username c \<noteq> username t) ?es)))"
    unfolding benchmarkResult_entries Let_def using dim by simp
  have r3: "b_rank (bm_growth ?R) =
        of_nat (Suc (length (takeWhile (\<lambda>c. a_username c \<noteq> username t) ?gs)))"
    unfolding benchmarkResult_entries Let_def using dim by simp
  have r1: "b_rank (bm_followers ?R) = rank (target ?R)"
    by (simp add: benchmarkResult_entries benchmarkResult_target)
  have f': "find ?P (l_competitors L) = Some (target ?R)"
    by (simp add: f benchmarkResult_target)
  have s2: "sorted_wrt (\<ge>) (map (\<lambda>c. m_engagementRate (metrics c)) ?es)"
    by (rule sortDesc_sorted)
  have s3: "sorted_wrt (\<ge>) (map (\<lambda>c. followersPerMonth (growth c)) ?gs)"
    by (rule sortDesc_sorted)
  have m2: "mset ?es = mset (l_competitors L)" by (rule mset_sortDesc)
  have m3: "mset ?gs = mset (l_competitors L)" by (rule mset_sortDesc)
  have t2: "\<forall>v. filter (\<lambda>c. m_engagementRate (metrics c) = v) ?es
             = filter (\<lambda>c. m_engagementRate (metrics c) = v) (l_competitors L)"
    by (simp add: sortDesc_stable)
  have t3: "\<forall>v. filter (\<lambda>c. followersPerMonth (growth c) = v) ?gs
             = filter (\<lambda>c. followersPerMonth (growth c) = v) (l_competitors L)"
    by (simp add: sortDesc_stable)
  show ?thesis
    by (intro exI[of _ ?R] exI[of _ L] exI[of _ ?es] exI[of _ ?gs] conjI)
       (rule r L len un all r1 f' refl s2 m2 t2 r2 s3 m3 t3 r3)+
qed

theorem benchmark_percentiles_witness:
  "[profile ''a'' (Some 10) None None] \<noteq> [] \<and>
   (\<exists>r. benchmarkCreator (Some (profile ''b'' (Some 5) None None))
           [profile ''a'' (Some 10) None None] = Inr r
      \<and> 0 \<le> b_percentile (bm_followers r) \<and> b_percentile (bm_followers r) \<le> 100
      \<and> b_total (bm_followers r) = 2)"
proof -
  have ne: "[profile ''a'' (Some 10) None None] \<noteq> []" by simp
  from benchmark_percentiles[OF ne, of "profile ''b'' (Some 5) None None"]
  obtain r where
    "benchmarkCreator (Some (profile ''b'' (Some 5) None None))
       [profile ''a'' (Some 10) None None] = Inr r"
    "\<forall>e \<in> set [bm_followers r, bm_engagement r, bm_growth r].
          b_total e = of_nat (Suc (length [profile ''a'' (Some 10) None None])) \<and>
          0 \<le> b_percentile e \<and> b_percentile e \<le> 100"
    by (elim exE conjE) (rule that, assumption, simp)
  then show ?thesis using ne by auto
qed

end
